theory Spec2Isabelle
  imports Complex_Main "HOL-Library.Word" "HOL-Library.Log_Nat"
begin

section \<open>Python values and exceptions\<close>

text \<open>
  The module \<^verbatim>\<open>vstransitions/libs/movis.py\<close> glues a video graph engine to a scene
  compositor.  Exceptions are values of the type \<open>error\<close>; a function that may raise
  returns \<open>error + 'a\<close> with \<open>Inl\<close> for the exception.  A frame rate of the engine is a
  \<^verbatim>\<open>Fraction\<close>, an exact rational; a time is a Python float, an IEEE double.
\<close>

datatype error =
    TypeError | NotImplementedError | KeyError | ValueError
  | ZeroDivisionError | IndexError | AttributeError | OverflowError | VSError

section \<open>Double precision floats\<close>

text \<open>
  A double is a rational, an infinity or NaN.  The rationals that are doubles are the
  values of \<open>to_double\<close>, which rounds a rational to the nearest double, ties to the
  even significand, with gradual underflow and overflow to infinity.  The sign of a zero
  is not kept: no operation of the module tells the two zeros apart.
\<close>

datatype double = Finite rat | PosInf | NegInf | NaN

definition bexp :: "rat \<Rightarrow> int" where
  \<comment> \<open>the binary exponent of a positive rational: \<open>2 powi bexp x \<le> x < 2 powi (bexp x + 1)\<close>\<close>
  "bexp x =
     (let (a, b) = quotient_of x; e0 = bitlen a - bitlen b
      in if 2 powi e0 \<le> x then e0 else e0 - 1)"

definition round_even :: "rat \<Rightarrow> int" where
  \<comment> \<open>the nearest integer, the even one of two that are equally near\<close>
  "round_even z =
     (let f = \<lfloor>z\<rfloor>; d = z - of_int f
      in if d < 1 / 2 then f else if 1 / 2 < d then f + 1 else if even f then f else f + 1)"

definition ulp :: "rat \<Rightarrow> rat" where
  \<comment> \<open>the spacing of the doubles around a positive rational: 53 bits of significand,
      exponents from \<open>-1022\<close>\<close>
  "ulp x = 2 powi (max (bexp x) (- 1022) - 52)"

definition round_pos :: "rat \<Rightarrow> rat" where
  "round_pos x = ulp x * of_int (round_even (x / ulp x))"

definition to_double :: "rat \<Rightarrow> double" where
  "to_double x =
     (if x = 0 then Finite 0
      else let r = round_pos \<bar>x\<bar>
           in if 2 powi 1024 \<le> r then (if 0 < x then PosInf else NegInf)
              else Finite (if 0 < x then r else - r))"

definition py_float :: "rat \<Rightarrow> error + double" where
  \<comment> \<open>\<^verbatim>\<open>float(q)\<close> of a \<^verbatim>\<open>Fraction\<close>: numerator by denominator, correctly rounded\<close>
  "py_float q =
     (case to_double q of Finite r \<Rightarrow> Inr (Finite r) | _ \<Rightarrow> Inl OverflowError)"

fun float_lt :: "double \<Rightarrow> double \<Rightarrow> bool" where
  \<comment> \<open>\<^verbatim>\<open>a < b\<close>\<close>
  "float_lt NaN b = False"
| "float_lt a NaN = False"
| "float_lt (Finite a) (Finite b) = (a < b)"
| "float_lt NegInf NegInf = False"
| "float_lt NegInf b = True"
| "float_lt a NegInf = False"
| "float_lt PosInf b = False"
| "float_lt a PosInf = True"

fun float_mul :: "double \<Rightarrow> double \<Rightarrow> double" where
  \<comment> \<open>\<^verbatim>\<open>a * b\<close>\<close>
  "float_mul NaN b = NaN"
| "float_mul a NaN = NaN"
| "float_mul (Finite a) (Finite b) = to_double (a * b)"
| "float_mul (Finite a) PosInf = (if a = 0 then NaN else if 0 < a then PosInf else NegInf)"
| "float_mul (Finite a) NegInf = (if a = 0 then NaN else if 0 < a then NegInf else PosInf)"
| "float_mul PosInf (Finite b) = (if b = 0 then NaN else if 0 < b then PosInf else NegInf)"
| "float_mul NegInf (Finite b) = (if b = 0 then NaN else if 0 < b then NegInf else PosInf)"
| "float_mul PosInf PosInf = PosInf"
| "float_mul PosInf NegInf = NegInf"
| "float_mul NegInf PosInf = NegInf"
| "float_mul NegInf NegInf = PosInf"

definition py_int :: "double \<Rightarrow> error + int" where
  \<comment> \<open>\<^verbatim>\<open>int(x)\<close> of a float: truncation towards zero\<close>
  "py_int x =
     (case x of
        Finite r \<Rightarrow> Inr (if 0 \<le> r then \<lfloor>r\<rfloor> else \<lceil>r\<rceil>)
      | NaN \<Rightarrow> Inl ValueError
      | _ \<Rightarrow> Inl OverflowError)"

definition Fraction_of :: "double \<Rightarrow> error + rat" where
  \<comment> \<open>\<^verbatim>\<open>Fraction(x)\<close> of a float: the exact value\<close>
  "Fraction_of x =
     (case x of
        Finite r \<Rightarrow> Inr r
      | NaN \<Rightarrow> Inl ValueError
      | _ \<Rightarrow> Inl OverflowError)"

section \<open>Clips of the graph engine\<close>

text \<open>
  A plane is a two-dimensional array with an explicit shape; a frame is the list of its
  planes; a clip has a constant format and size, and carries the video information the
  module reads and its frames.
\<close>

record 'a plane =
  rows :: nat
  cols :: nat
  px :: "nat \<Rightarrow> nat \<Rightarrow> 'a"

record pixfmt =
  fmt_name :: string
  fmt_planes :: nat

definition RGB24 :: pixfmt where
  "RGB24 = \<lparr>fmt_name = ''RGB24'', fmt_planes = 3\<rparr>"

definition GRAY8 :: pixfmt where
  "GRAY8 = \<lparr>fmt_name = ''GRAY8'', fmt_planes = 1\<rparr>"

record clip =
  width :: nat
  height :: nat
  num_frames :: nat
  fps :: rat
  format :: pixfmt
  get_frame :: "nat \<Rightarrow> nat plane list"

record audio_node =
  num_samples :: nat

definition truthy_audio :: "audio_node option \<Rightarrow> bool" where
  \<comment> \<open>\<^verbatim>\<open>if audio\<close>: \<^verbatim>\<open>None\<close> is false, a node is as true as its length is non-zero.\<close>
  "truthy_audio a = (case a of None \<Rightarrow> False | Some n \<Rightarrow> num_samples n \<noteq> 0)"

section \<open>Operations of the graph engine\<close>

text \<open>
  The engine is an external collaborator.  Its operations are modelled by their contract
  on the video information and the shape of the frames.  A blank clip made from a
  template takes size, length and rate from it and holds one constant in every sample.
  A format conversion that changes nothing (the clip's own format, no keyword argument)
  returns its input; any other may be refused with the engine's error, and otherwise
  gives frames of the requested format and size.  Which requests the engine refuses
  (\<open>refuses\<close>), the sample values a conversion computes (\<open>resample\<close>), the frame
  property lookup (\<open>PropToClip\<close>) and the number of worker threads are parameters.
\<close>

record kwargs =
  kw_width :: "nat option"
  kw_height :: "nat option"
  kw_other :: "string list"

definition no_kwargs :: kwargs where
  "no_kwargs = \<lparr>kw_width = None, kw_height = None, kw_other = []\<rparr>"

record vs_core =
  num_threads :: nat
  PropToClip :: "clip \<Rightarrow> string \<Rightarrow> error + clip"
  refuses :: "clip \<Rightarrow> pixfmt \<Rightarrow> kwargs \<Rightarrow> bool"
  resample :: "clip \<Rightarrow> pixfmt \<Rightarrow> kwargs \<Rightarrow> nat \<Rightarrow> nat \<Rightarrow> nat \<Rightarrow> nat \<Rightarrow> nat"

definition BlankClip :: "clip \<Rightarrow> pixfmt \<Rightarrow> nat \<Rightarrow> clip" where
  \<comment> \<open>\<^verbatim>\<open>core.std.BlankClip(clip, format=fmt, color=color, keep=True)\<close>\<close>
  "BlankClip c fmt color =
     c\<lparr>format := fmt,
       get_frame := (\<lambda>n. replicate (fmt_planes fmt)
                      \<lparr>rows = height c, cols = width c, px = (\<lambda>y x. color)\<rparr>)\<rparr>"

definition Bicubic :: "vs_core \<Rightarrow> clip \<Rightarrow> pixfmt \<Rightarrow> kwargs \<Rightarrow> error + clip" where
  \<comment> \<open>\<^verbatim>\<open>clip.resize.Bicubic(format=fmt, **kw)\<close>\<close>
  "Bicubic core c fmt kw =
     (if format c = fmt \<and> kw = no_kwargs then Inr c
      else if refuses core c fmt kw then Inl VSError
      else
        let w = (case kw_width kw of None \<Rightarrow> width c | Some w' \<Rightarrow> w');
            h = (case kw_height kw of None \<Rightarrow> height c | Some h' \<Rightarrow> h')
        in Inr (c\<lparr>width := w, height := h, format := fmt,
                  get_frame := (\<lambda>n. map (\<lambda>p. \<lparr>rows = h, cols = w,
                                                 px = resample core c fmt kw n p\<rparr>)
                                        [0..<fmt_planes fmt])\<rparr>))"

definition BlankClip_new :: "nat \<Rightarrow> nat \<Rightarrow> pixfmt \<Rightarrow> int \<Rightarrow> rat \<Rightarrow> error + clip" where
  \<comment> \<open>\<^verbatim>\<open>core.std.BlankClip(None, width, height, format, length, fpsnum, fpsden,
      [0, 0, 0], True)\<close>: the engine refuses an empty size, a length below one frame
      and a negative rate\<close>
  "BlankClip_new w h fmt len rate =
     (if w = 0 \<or> h = 0 \<or> len < 1 \<or> rate < 0 then Inl VSError
      else Inr \<lparr>width = w, height = h, num_frames = nat len, fps = rate, format = fmt,
                get_frame = (\<lambda>n. replicate (fmt_planes fmt)
                               \<lparr>rows = h, cols = w, px = (\<lambda>y x. 0)\<rparr>)\<rparr>)"

section \<open>MovisVSAudioSource\<close>

datatype audio_layer = AudioLayer audio_node

definition MovisVSAudioSource_init :: "audio_node \<Rightarrow> error + audio_layer" where
  "MovisVSAudioSource_init audio_node = Inl NotImplementedError"

definition MovisVSAudioSource_get_audio ::
  "audio_layer \<Rightarrow> double \<Rightarrow> double \<Rightarrow> error + (double list) option" where
  "MovisVSAudioSource_get_audio self start_time end_time = Inl NotImplementedError"

section \<open>MovisVSVideoSource\<close>

record source =
  video_node :: clip
  video_alpha_node :: clip
  priv_audio :: "audio_node option"
  priv_audio_layer :: "audio_layer option"

datatype alpha_arg = AlphaNode clip | AlphaFlag bool

datatype video_arg = Single clip | Pair clip alpha_arg

definition MovisVSVideoSource_init ::
  "vs_core \<Rightarrow> video_arg \<Rightarrow> audio_node option \<Rightarrow> kwargs \<Rightarrow> error + source" where
  "MovisVSVideoSource_init core arg audio kw =
     (let (video_node0, video_alpha_node0) =
            (case arg of Single v \<Rightarrow> (v, AlphaFlag True) | Pair v a \<Rightarrow> (v, a));
          alpha =
            (case video_alpha_node0 of
               AlphaNode a \<Rightarrow> a
             | AlphaFlag b \<Rightarrow>
                 (case (if \<not> b then Inl TypeError else PropToClip core video_node0 ''_Alpha'') of
                    Inl e \<Rightarrow> BlankClip video_node0 GRAY8 255
                  | Inr a \<Rightarrow> a))
      in case Bicubic core video_node0 RGB24 kw of
           Inl e \<Rightarrow> Inl e
         | Inr vn \<Rightarrow>
       case Bicubic core alpha GRAY8 no_kwargs of
           Inl e \<Rightarrow> Inl e
         | Inr an \<Rightarrow>
       case (if truthy_audio audio
             then map_sum id Some (MovisVSAudioSource_init (the audio))
             else Inr None) of
           Inl e \<Rightarrow> Inl e
         | Inr layer \<Rightarrow>
             Inr \<lparr>video_node = vn, video_alpha_node = an,
                  priv_audio = audio, priv_audio_layer = layer\<rparr>)"

definition source_fps :: "source \<Rightarrow> error + double" where
  \<comment> \<open>the property \<^verbatim>\<open>fps\<close>: \<^verbatim>\<open>float(self.video_node.fps)\<close>\<close>
  "source_fps self = py_float (fps (video_node self))"

definition n_frame :: "source \<Rightarrow> nat" where
  "n_frame self = num_frames (video_node self)"

definition duration :: "source \<Rightarrow> error + double" where
  \<comment> \<open>\<^verbatim>\<open>float(num_frames / fps)\<close>: the quotient is an exact \<^verbatim>\<open>Fraction\<close>, by zero it raises\<close>
  "duration self =
     (if fps (video_node self) = 0 then Inl ZeroDivisionError
      else py_float (of_nat (num_frames (video_node self)) / fps (video_node self)))"

definition has_audio :: "source \<Rightarrow> bool" where
  "has_audio self = (priv_audio_layer self \<noteq> None)"

definition get_key :: "source \<Rightarrow> double \<Rightarrow> error + int" where
  \<comment> \<open>\<^verbatim>\<open>time < 0 or self.duration < time\<close>: the duration is read only when \<open>time < 0\<close> is
      false; \<^verbatim>\<open>time * fps\<close> of a float and a \<^verbatim>\<open>Fraction\<close> is the product of two floats\<close>
  "get_key self time =
     (if float_lt time (Finite 0) then Inr (- 1)
      else case duration self of
             Inl e \<Rightarrow> Inl e
           | Inr d \<Rightarrow>
               if float_lt d time then Inr (- 1)
               else case py_float (fps (video_node self)) of
                      Inl e \<Rightarrow> Inl e
                    | Inr f \<Rightarrow> py_int (float_mul time f))"

definition frame_of :: "clip \<Rightarrow> nat \<Rightarrow> error + nat plane list" where
  \<comment> \<open>\<^verbatim>\<open>FramesCache(node, size)[n]\<close>: frame \<open>n\<close> of the node; a request past the end fails.\<close>
  "frame_of c n = (if n < num_frames c then Inr (get_frame c n) else Inl ValueError)"

definition plane_of :: "'a plane list \<Rightarrow> nat \<Rightarrow> error + 'a plane" where
  \<comment> \<open>\<^verbatim>\<open>frame[i]\<close>\<close>
  "plane_of f i = (if i < length f then Inr (f ! i) else Inl IndexError)"

definition asarray_uint8 :: "nat plane \<Rightarrow> 8 word plane" where
  \<comment> \<open>\<^verbatim>\<open>np.asarray(arr, np.uint8)\<close>\<close>
  "asarray_uint8 p = \<lparr>rows = rows p, cols = cols p, px = (\<lambda>y x. of_nat (px p y x))\<rparr>"

definition shape :: "'a plane \<Rightarrow> nat \<times> nat" where
  "shape p = (rows p, cols p)"

definition dstack :: "'a plane list \<Rightarrow> error + 'a plane list" where
  \<comment> \<open>\<^verbatim>\<open>np.dstack\<close>: the arrays are stacked along a third axis (kept here as the list of
      the stacked planes); arrays of different shapes are refused.\<close>
  "dstack ps =
     (case ps of
        [] \<Rightarrow> Inl ValueError
      | p # qs \<Rightarrow> if list_all (\<lambda>q. shape q = shape p) qs then Inr ps else Inl ValueError)"

definition MovisVSVideoSource_call ::
  "source \<Rightarrow> double \<Rightarrow> error + (8 word plane list) option" where
  "MovisVSVideoSource_call self time =
     (case get_key self time of
        Inl e \<Rightarrow> Inl e
      | Inr frame_index \<Rightarrow>
          if frame_index < 0 \<or> frame_index \<ge> int (n_frame self) then Inr None
          else
            case frame_of (video_node self) (nat frame_index) of
              Inl e \<Rightarrow> Inl e
            | Inr frame \<Rightarrow>
            case frame_of (video_alpha_node self) (nat frame_index) of
              Inl e \<Rightarrow> Inl e
            | Inr alpha_frame \<Rightarrow>
            case plane_of frame 0 of Inl e \<Rightarrow> Inl e | Inr r \<Rightarrow>
            case plane_of frame 1 of Inl e \<Rightarrow> Inl e | Inr g \<Rightarrow>
            case plane_of frame 2 of Inl e \<Rightarrow> Inl e | Inr b \<Rightarrow>
            case plane_of alpha_frame 0 of Inl e \<Rightarrow> Inl e | Inr a \<Rightarrow>
            case dstack [asarray_uint8 r, asarray_uint8 g, asarray_uint8 b, asarray_uint8 a] of
              Inl e \<Rightarrow> Inl e
            | Inr arr \<Rightarrow> Inr (Some arr))"

definition get_audio :: "source \<Rightarrow> double \<Rightarrow> double \<Rightarrow> error + (double list) option" where
  "get_audio self start_time end_time =
     (if truthy_audio (priv_audio self) \<and> priv_audio_layer self \<noteq> None
      then MovisVSAudioSource_get_audio (the (priv_audio_layer self)) start_time end_time
      else Inr None)"

section \<open>MovisSceneVSWrap\<close>

text \<open>
  The scene belongs to the compositor.  The bridge reads its layer list and owns the
  bound on its memoization dictionary, which is kept in insertion order as a list of
  entries with distinct keys.  What a call of the scene does is the parameter
  \<open>scene_call\<close>: it returns a stacked frame or \<^verbatim>\<open>None\<close>, and the scene as it left it.
  The rate attribute of a layer of the compositor is a float.
\<close>

type_synonym ndarray = "8 word plane list"

datatype layer_obj = LayerItem layer_obj | VideoSource source | OtherLayer "double option"

record ('k, 's) scene =
  priv_cache :: "('k \<times> ndarray) list"
  priv_layers :: "layer_obj list"
  size :: "nat \<times> nat"
  scene_duration :: double
  internal :: 's

record wrap =
  self_width :: nat
  self_height :: nat
  self_fps :: rat
  priv_base_clip :: clip

definition unwrap_item :: "layer_obj \<Rightarrow> layer_obj" where
  \<comment> \<open>\<^verbatim>\<open>if isinstance(layer, LayerItem): layer = layer.layer\<close>\<close>
  "unwrap_item layer = (case layer of LayerItem l \<Rightarrow> l | _ \<Rightarrow> layer)"

fun scan_layers :: "layer_obj list \<Rightarrow> rat option" where
  \<comment> \<open>the \<^verbatim>\<open>for\<close> loop: \<open>Some\<close> is the rate assigned before \<^verbatim>\<open>break\<close>\<close>
  "scan_layers [] = None"
| "scan_layers (layer # rest) =
     (case unwrap_item layer of
        VideoSource s \<Rightarrow> Some (fps (video_node s))
      | _ \<Rightarrow> scan_layers rest)"

definition attr_layer :: "layer_obj \<Rightarrow> error + layer_obj" where
  \<comment> \<open>\<^verbatim>\<open>obj.layer\<close>: only a layer item has the attribute\<close>
  "attr_layer obj = (case obj of LayerItem l \<Rightarrow> Inr l | _ \<Rightarrow> Inl AttributeError)"

definition attr_fps :: "layer_obj \<Rightarrow> error + double" where
  \<comment> \<open>\<^verbatim>\<open>obj.fps\<close>: a float; of a video source it is the property \<open>source_fps\<close>\<close>
  "attr_fps obj =
     (case obj of
        LayerItem l \<Rightarrow> Inl AttributeError
      | VideoSource s \<Rightarrow> source_fps s
      | OtherLayer None \<Rightarrow> Inl AttributeError
      | OtherLayer (Some r) \<Rightarrow> Inr r)"

definition init_fps :: "layer_obj list \<Rightarrow> rat option \<Rightarrow> error + rat" where
  "init_fps layers fps_arg =
     (case fps_arg of
        Some f \<Rightarrow> Inr f
      | None \<Rightarrow>
          (case scan_layers layers of
             Some f \<Rightarrow> Inr f
           | None \<Rightarrow>
               (case layers of
                  [] \<Rightarrow> Inl IndexError
                | first # _ \<Rightarrow>
                    (case attr_layer first of
                       Inl e \<Rightarrow> Inl e
                     | Inr layer \<Rightarrow>
                         (case attr_fps (unwrap_item layer) of
                            Inl e \<Rightarrow> Inl e
                          | Inr r \<Rightarrow> Fraction_of r)))))"

definition base_clip :: "nat \<Rightarrow> nat \<Rightarrow> double \<Rightarrow> rat \<Rightarrow> error + clip" where
  \<comment> \<open>the blank timeline of \<^verbatim>\<open>scene.duration * fps\<close> frames (a float, which the call of
      the engine truncates to an integer) at the rate \<open>fps\<close>\<close>
  "base_clip w h dur rate =
     (case py_float rate of
        Inl e \<Rightarrow> Inl e
      | Inr f \<Rightarrow>
          (case py_int (float_mul dur f) of
             Inl e \<Rightarrow> Inl e
           | Inr len \<Rightarrow> BlankClip_new w h RGB24 len rate))"

definition MovisSceneVSWrap_init ::
  "('k, 's) scene \<Rightarrow> rat option \<Rightarrow> (error + wrap) \<times> ('k, 's) scene" where
  \<comment> \<open>the cache is reset before anything can raise\<close>
  "MovisSceneVSWrap_init scene0 fps_arg =
     (let scene1 = scene0\<lparr>priv_cache := []\<rparr>
      in case init_fps (priv_layers scene1) fps_arg of
           Inl e \<Rightarrow> (Inl e, scene1)
         | Inr f \<Rightarrow>
             (case base_clip (fst (size scene1)) (snd (size scene1))
                     (scene_duration scene1) f of
                Inl e \<Rightarrow> (Inl e, scene1)
              | Inr b \<Rightarrow>
                  (Inr \<lparr>self_width = fst (size scene1), self_height = snd (size scene1),
                        self_fps = f, priv_base_clip = b\<rparr>, scene1)))"

definition py_del :: "'k \<Rightarrow> ('k \<times> 'v) list \<Rightarrow> error + ('k \<times> 'v) list" where
  \<comment> \<open>\<^verbatim>\<open>del d[k]\<close>\<close>
  "py_del k d =
     (if k \<in> set (map fst d) then Inr (filter (\<lambda>kv. fst kv \<noteq> k) d) else Inl KeyError)"

fun del_keys :: "'k list \<Rightarrow> ('k \<times> 'v) list \<Rightarrow> (error + unit) \<times> ('k \<times> 'v) list" where
  \<comment> \<open>\<^verbatim>\<open>for k in ks: del d[k]\<close>; a failing deletion keeps what was deleted before it\<close>
  "del_keys [] d = (Inr (), d)"
| "del_keys (k # ks) d =
     (case py_del k d of Inl e \<Rightarrow> (Inl e, d) | Inr d' \<Rightarrow> del_keys ks d')"

definition trim :: "vs_core \<Rightarrow> ('k \<times> 'v) list \<Rightarrow> (error + unit) \<times> ('k \<times> 'v) list" where
  "trim core d =
     (if length d > num_threads core * 2
      then del_keys (take (num_threads core) (map fst d)) d
      else (Inr (), d))"

definition copyto :: "'a plane \<Rightarrow> 'a plane \<Rightarrow> error + 'a plane" where
  \<comment> \<open>\<^verbatim>\<open>np.copyto(dst, src)\<close>: \<open>src\<close> is broadcast to the shape of \<open>dst\<close>\<close>
  "copyto dst src =
     (if (rows src = rows dst \<or> rows src = 1) \<and> (cols src = cols dst \<or> cols src = 1)
      then Inr \<lparr>rows = rows dst, cols = cols dst,
                px = (\<lambda>y x. px src (if rows src = 1 then 0 else y)
                                    (if cols src = 1 then 0 else x))\<rparr>
      else Inl ValueError)"

type_synonym ('k, 's) scene_call =
  "double \<Rightarrow> ('k, 's) scene \<Rightarrow> ndarray option \<times> ('k, 's) scene"

definition call_time :: "wrap \<Rightarrow> int \<Rightarrow> error + double" where
  \<comment> \<open>\<^verbatim>\<open>float(n / self.fps)\<close>\<close>
  "call_time self n =
     (if self_fps self = 0 then Inl ZeroDivisionError
      else py_float (of_int n / self_fps self))"

definition to_node ::
  "vs_core \<Rightarrow> ('k, 's) scene_call \<Rightarrow> wrap \<Rightarrow> int \<Rightarrow> nat \<Rightarrow>
   8 word plane \<times> ('k, 's) scene \<Rightarrow> (error + unit) \<times> 8 word plane \<times> ('k, 's) scene" where
  "to_node core scene_call self n plane st =
     (let (dst, scene0) = st
      in case call_time self n of
           Inl e \<Rightarrow> (Inl e, dst, scene0)
         | Inr t \<Rightarrow>
           let (frame, scene1) = scene_call t scene0
           in case frame of
                None \<Rightarrow> (Inl KeyError, dst, scene1)
              | Some arr \<Rightarrow>
                  (case plane_of arr plane of
                     Inl e \<Rightarrow> (Inl e, dst, scene1)
                   | Inr src \<Rightarrow>
                       (case copyto dst src of
                          Inl e \<Rightarrow> (Inl e, dst, scene1)
                        | Inr dst' \<Rightarrow>
                            (let (r, d) = trim core (priv_cache scene1)
                             in (r, dst', scene1\<lparr>priv_cache := d\<rparr>)))))"

subsection \<open>Sequences of bridge calls\<close>

text \<open>
  The engine calls the bridge once per plane and frame; a failed call aborts that frame
  only, so the calls that follow find the scene as the failed one left it.
\<close>

fun run_to_node ::
  "vs_core \<Rightarrow> ('k, 's) scene_call \<Rightarrow> wrap \<Rightarrow> (int \<times> nat) list \<Rightarrow>
   8 word plane \<times> ('k, 's) scene \<Rightarrow> ((error + unit) \<times> 8 word plane \<times> ('k, 's) scene) list" where
  "run_to_node core scene_call self [] st = []"
| "run_to_node core scene_call self ((n, plane) # calls) st =
     (let r = to_node core scene_call self n plane st
      in r # run_to_node core scene_call self calls (snd r))"

definition at_most_one_new :: "'k list \<Rightarrow> 'k list \<Rightarrow> bool" where
  \<comment> \<open>the keys \<open>ks'\<close> are the keys \<open>ks\<close>, or \<open>ks\<close> followed by one key not among them\<close>
  "at_most_one_new ks ks' =
     (ks' = ks \<or> (ks' \<noteq> [] \<and> butlast ks' = ks \<and> last ks' \<notin> set ks))"

definition scene_step_ok ::
  "vs_core \<Rightarrow> ('k, 's) scene_call \<Rightarrow> wrap \<Rightarrow> int \<Rightarrow> nat \<Rightarrow>
   8 word plane \<times> ('k, 's) scene \<Rightarrow> bool" where
  \<comment> \<open>in this bridge call the scene, if it is called, inserts at most one new entry, and
      none when the bridge call raises\<close>
  "scene_step_ok core scene_call self n plane st =
     (case call_time self n of
        Inl e \<Rightarrow> True
      | Inr t \<Rightarrow>
          (let ks = map fst (priv_cache (snd st));
               ks' = map fst (priv_cache (snd (scene_call t (snd st))))
           in at_most_one_new ks ks'
              \<and> (isl (fst (to_node core scene_call self n plane st)) \<longrightarrow> ks' = ks)))"

fun scene_behaves ::
  "vs_core \<Rightarrow> ('k, 's) scene_call \<Rightarrow> wrap \<Rightarrow> (int \<times> nat) list \<Rightarrow>
   8 word plane \<times> ('k, 's) scene \<Rightarrow> bool" where
  "scene_behaves core scene_call self [] st = True"
| "scene_behaves core scene_call self ((n, plane) # calls) st =
     (scene_step_ok core scene_call self n plane st
      \<and> scene_behaves core scene_call self calls
          (snd (to_node core scene_call self n plane st)))"

definition cache_ok :: "vs_core \<Rightarrow> ('k \<times> 'v) list \<Rightarrow> bool" where
  "cache_ok core d = (distinct (map fst d) \<and> length d \<le> 2 * num_threads core)"

definition trimmed :: "vs_core \<Rightarrow> ('k \<times> 'v) list \<Rightarrow> ('k \<times> 'v) list" where
  \<comment> \<open>in the words of the specification: without its \<open>num_threads\<close> oldest entries when it
      holds more than \<open>2 * num_threads\<close>, unchanged otherwise\<close>
  "trimmed core d =
     (if length d > 2 * num_threads core then drop (num_threads core) d else d)"

definition wf_clip :: "clip \<Rightarrow> bool" where
  \<comment> \<open>every frame of a clip has the planes of its format, each of the clip's size\<close>
  "wf_clip c =
     (\<forall>n < num_frames c.
        length (get_frame c n) = fmt_planes (format c)
        \<and> list_all (\<lambda>p. shape p = (height c, width c)) (get_frame c n))"

subsection \<open>The frame rate in the words of the specification\<close>

definition is_video_source :: "layer_obj \<Rightarrow> bool" where
  "is_video_source obj = (case obj of VideoSource s \<Rightarrow> True | _ \<Rightarrow> False)"

definition first_video_source_layer :: "layer_obj list \<Rightarrow> layer_obj option" where
  \<comment> \<open>the first video-source layer of the layer list, layer items unwrapped\<close>
  "first_video_source_layer layers = List.find is_video_source (map unwrap_item layers)"

section \<open>Example inputs\<close>

definition example_refuses :: "clip \<Rightarrow> pixfmt \<Rightarrow> kwargs \<Rightarrow> bool" where
  \<comment> \<open>an engine that refuses an empty target size and the unknown keyword \<^verbatim>\<open>foo\<close>\<close>
  "example_refuses c fmt kw =
     (kw_width kw = Some 0 \<or> kw_height kw = Some 0 \<or> ''foo'' \<in> set (kw_other kw))"

definition example_core :: vs_core where
  "example_core = \<lparr>num_threads = 4, PropToClip = (\<lambda>c p. Inl VSError),
                    refuses = example_refuses, resample = (\<lambda>c f k n p y x. 0)\<rparr>"

definition single_core :: vs_core where
  "single_core = \<lparr>num_threads = 1, PropToClip = (\<lambda>c p. Inl VSError),
                   refuses = example_refuses, resample = (\<lambda>c f k n p y x. 0)\<rparr>"

definition example_clip :: clip where
  \<comment> \<open>three seconds of 4 by 2 RGB video at 30 frames per second, without alpha\<close>
  "example_clip = \<lparr>width = 4, height = 2, num_frames = 90, fps = 30, format = RGB24,
     get_frame = (\<lambda>n. replicate 3 \<lparr>rows = 2, cols = 4, px = (\<lambda>y x. 0)\<rparr>)\<rparr>"

definition example_source :: source where
  "example_source = \<lparr>video_node = example_clip,
      video_alpha_node = BlankClip example_clip GRAY8 255,
      priv_audio = None, priv_audio_layer = None\<rparr>"

definition widen_kwargs :: kwargs where
  "widen_kwargs = \<lparr>kw_width = Some 8, kw_height = None, kw_other = []\<rparr>"

definition widened_clip :: clip where
  "widened_clip = \<lparr>width = 8, height = 2, num_frames = 90, fps = 30, format = RGB24,
     get_frame = (\<lambda>n. map (\<lambda>p. \<lparr>rows = 2, cols = 8, px = (\<lambda>y x. 0)\<rparr>) [0..<3])\<rparr>"

definition widened_source :: source where
  "widened_source = \<lparr>video_node = widened_clip,
      video_alpha_node = BlankClip example_clip GRAY8 255,
      priv_audio = None, priv_audio_layer = None\<rparr>"

definition refused_kwargs :: kwargs where
  "refused_kwargs = \<lparr>kw_width = Some 0, kw_height = None, kw_other = []\<rparr>"

definition example_audio :: audio_node where
  "example_audio = \<lparr>num_samples = 48000\<rparr>"

definition three_tenths :: rat where
  \<comment> \<open>the double nearest to 0.3\<close>
  "three_tenths = 5404319552844595 / 18014398509481984"

definition example_frame :: ndarray where
  "example_frame = replicate 4 \<lparr>rows = 2, cols = 4, px = (\<lambda>y x. 0)\<rparr>"

definition example_dst :: "8 word plane" where
  "example_dst = \<lparr>rows = 2, cols = 4, px = (\<lambda>y x. 7)\<rparr>"

definition example_scene_call :: "(int, unit) scene_call" where
  \<comment> \<open>a scene that memoizes each frame under its index at 24 frames per second, and has
      no frame outside its duration\<close>
  "example_scene_call t sc =
     (case t of
        Finite x \<Rightarrow>
          (if float_lt t (Finite 0) \<or> \<not> float_lt t (scene_duration sc) then (None, sc)
           else let k = \<lfloor>x * 24\<rfloor>
                in case map_of (priv_cache sc) k of
                     Some f \<Rightarrow> (Some f, sc)
                   | None \<Rightarrow>
                       (Some example_frame,
                        sc\<lparr>priv_cache := priv_cache sc @ [(k, example_frame)]\<rparr>))
      | _ \<Rightarrow> (None, sc))"

definition example_scene :: "(int, unit) scene" where
  "example_scene = \<lparr>priv_cache = [(7, example_frame)],
      priv_layers = [LayerItem (OtherLayer (Some (Finite 24)))],
      size = (4, 2), scene_duration = Finite 10, internal = ()\<rparr>"

definition example_wrap :: wrap where
  "example_wrap = \<lparr>self_width = 4, self_height = 2, self_fps = 24,
     priv_base_clip = \<lparr>width = 4, height = 2, num_frames = 240, fps = 24, format = RGB24,
       get_frame = (\<lambda>n. replicate 3 \<lparr>rows = 2, cols = 4, px = (\<lambda>y x. 0)\<rparr>)\<rparr>\<rparr>"

definition example_calls :: "(int \<times> nat) list" where
  "example_calls = [(0, 0), (24, 1), (48, 2), (24, 3), (240, 0), (72, 3)]"

definition failing_calls :: "(int \<times> nat) list" where
  \<comment> \<open>three calls for a plane the frame does not have, then one for its first plane\<close>
  "failing_calls = [(0, 4), (24, 4), (48, 4), (72, 0)]"

definition video_scene :: "(int, unit) scene" where
  "video_scene =
     example_scene\<lparr>priv_layers :=
       [LayerItem (OtherLayer (Some (Finite 24))), LayerItem (VideoSource example_source)]\<rparr>"

definition ntsc_source :: source where
  "ntsc_source = example_source\<lparr>video_node := example_clip\<lparr>fps := 30000 / 1001\<rparr>\<rparr>"

definition wrapped_scene :: "(int, unit) scene" where
  \<comment> \<open>the only layer is a video source inside two layer items\<close>
  "wrapped_scene =
     example_scene\<lparr>priv_layers := [LayerItem (LayerItem (VideoSource ntsc_source))]\<rparr>"

definition filled_scene :: "(int, unit) scene" where
  "filled_scene =
     example_scene\<lparr>priv_cache := [(0, example_frame), (24, example_frame)]\<rparr>"

section \<open>Auxiliary facts\<close>

subsection \<open>Rounding to a double\<close>

lemma two_powi_less_iff: "(2::rat) powi a < 2 powi b \<longleftrightarrow> a < b"
proof
  assume "(2::rat) powi a < 2 powi b"
  show "a < b"
  proof (rule ccontr)
    assume "\<not> a < b"
    then have "b \<le> a" by simp
    then have "(2::rat) powi b \<le> 2 powi a" by (intro power_int_increasing) auto
    with \<open>(2::rat) powi a < 2 powi b\<close> show False by simp
  qed
next
  assume "a < b"
  then show "(2::rat) powi a < 2 powi b" by (intro power_int_strict_increasing) auto
qed

lemma two_powi_le_iff: "(2::rat) powi a \<le> 2 powi b \<longleftrightarrow> a \<le> b"
  using two_powi_less_iff[of b a] by (auto simp: not_less[symmetric])

lemma bitlen_rat_bounds:
  assumes "0 < a"
  shows "(2::rat) powi (bitlen a - 1) \<le> of_int a" "of_int a < (2::rat) powi bitlen a"
proof -
  from bitlen_bounds[OF assms]
  have lo: "2 ^ nat (bitlen a - 1) \<le> a" and hi: "a < 2 ^ nat (bitlen a)" by simp_all
  from hi assms have pos: "1 \<le> bitlen a"
    by (cases "bitlen a \<le> 0") auto
  from lo have "(of_int (2 ^ nat (bitlen a - 1)) :: rat) \<le> of_int a"
    by (simp only: of_int_le_iff)
  with pos show "(2::rat) powi (bitlen a - 1) \<le> of_int a"
    by (simp add: power_int_nonneg_exp)
  from hi have "(of_int a :: rat) < of_int (2 ^ nat (bitlen a))"
    by (simp only: of_int_less_iff)
  with pos show "of_int a < (2::rat) powi bitlen a"
    by (simp add: power_int_nonneg_exp)
qed

lemma bexp_bounds:
  assumes "0 < x"
  shows "2 powi bexp x \<le> x" "x < 2 powi (bexp x + 1)"
proof -
  obtain a b where q: "quotient_of x = (a, b)" by (cases "quotient_of x")
  then have b: "0 < b" and x: "x = of_int a / of_int b"
    by (simp_all add: quotient_of_denom_pos quotient_of_div)
  from assms x b have a: "0 < a" by (simp add: zero_less_divide_iff)
  define e0 where "e0 = bitlen a - bitlen b"
  note A = bitlen_rat_bounds[OF a] and B = bitlen_rat_bounds[OF b]
  have bpos: "(0::rat) < of_int b" using b by simp
  have "x < 2 powi bitlen a / 2 powi (bitlen b - 1)"
    unfolding x using A(2) B(1) a bpos
    by (intro frac_less) auto
  also have "\<dots> = 2 powi (e0 + 1)"
    by (simp add: e0_def power_int_diff[symmetric] algebra_simps)
  finally have hi: "x < 2 powi (e0 + 1)" .
  have "2 powi (bitlen a - 1) / 2 powi bitlen b < x"
    unfolding x using A(1) B(2) a bpos
    by (intro frac_less2) auto
  moreover have "(2::rat) powi (bitlen a - 1) / 2 powi bitlen b = 2 powi (e0 - 1)"
    by (simp add: e0_def power_int_diff[symmetric] algebra_simps)
  ultimately have lo: "2 powi (e0 - 1) < x" by simp
  have be: "bexp x = (if 2 powi e0 \<le> x then e0 else e0 - 1)"
    by (simp add: bexp_def q e0_def Let_def)
  from be lo show "2 powi bexp x \<le> x" by auto
  from be hi show "x < 2 powi (bexp x + 1)" by (auto simp: not_le)
qed

lemma bexp_unique:
  assumes "2 powi e \<le> x" "x < 2 powi (e + 1)"
  shows "bexp x = e"
proof -
  have "(0::rat) < 2 powi e" by simp
  from this assms(1) have pos: "0 < x" by (rule less_le_trans)
  note B = bexp_bounds[OF pos]
  from B(1) assms(2) have "(2::rat) powi bexp x < 2 powi (e + 1)" by simp
  then have "bexp x < e + 1" by (simp only: two_powi_less_iff)
  moreover from assms(1) B(2) have "(2::rat) powi e < 2 powi (bexp x + 1)" by simp
  then have "e < bexp x + 1" by (simp only: two_powi_less_iff)
  ultimately show ?thesis by simp
qed

lemma bexp_mono:
  assumes "0 < x" "x \<le> y"
  shows "bexp x \<le> bexp y"
proof -
  from assms have "0 < y" by simp
  from bexp_bounds(1)[OF assms(1)] assms(2) bexp_bounds(2)[OF \<open>0 < y\<close>]
  have "(2::rat) powi bexp x < 2 powi (bexp y + 1)" by simp
  then have "bexp x < bexp y + 1" by (simp only: two_powi_less_iff)
  then show ?thesis by simp
qed

lemma round_even_bounds: "\<lfloor>z\<rfloor> \<le> round_even z" "round_even z \<le> \<lfloor>z\<rfloor> + 1"
  by (simp_all add: round_even_def Let_def)

lemma round_even_of_int [simp]: "round_even (of_int n) = n"
  by (simp add: round_even_def)

lemma round_even_mono:
  assumes "x \<le> y"
  shows "round_even x \<le> round_even y"
proof (cases "\<lfloor>x\<rfloor> = \<lfloor>y\<rfloor>")
  case True
  with assms have "x - of_int \<lfloor>x\<rfloor> \<le> y - of_int \<lfloor>y\<rfloor>" by simp
  with True show ?thesis by (auto simp: round_even_def Let_def)
next
  case False
  with assms have "\<lfloor>x\<rfloor> < \<lfloor>y\<rfloor>" using floor_mono[OF assms] by simp
  with round_even_bounds(2)[of x] round_even_bounds(1)[of y] show ?thesis by simp
qed

lemma ulp_pos [simp]: "0 < ulp x"
  by (simp add: ulp_def)

lemma round_even_le_of_int: "z \<le> of_int k \<Longrightarrow> round_even z \<le> k"
  using round_even_mono[of z "of_int k"] by (simp only: round_even_of_int)

lemma round_even_ge_of_int: "of_int k \<le> z \<Longrightarrow> k \<le> round_even z"
  using round_even_mono[of "of_int k" z] by (simp only: round_even_of_int)

lemma round_pos_nonneg:
  assumes "0 \<le> x"
  shows "0 \<le> round_pos x"
proof -
  from assms have "of_int 0 \<le> x / ulp x" by (simp add: divide_nonneg_pos)
  then have "0 \<le> round_even (x / ulp x)" by (rule round_even_ge_of_int)
  then have "(0::rat) \<le> of_int (round_even (x / ulp x))" by (simp only: of_int_0_le_iff)
  with less_imp_le[OF ulp_pos] show ?thesis
    unfolding round_pos_def by (rule mult_nonneg_nonneg)
qed

lemma round_pos_upper:
  assumes "0 < x"
  shows "round_pos x \<le> 2 powi (max (bexp x) (- 1022) + 1)"
proof -
  define a where "a = max (bexp x) (- 1022)"
  define M :: int where "M = 2 ^ 53"
  have M: "(2::rat) powi 53 = of_int M" by (simp add: M_def)
  have u: "ulp x = 2 powi (a - 52)" by (simp add: ulp_def a_def)
  have eq: "a + 1 = (a - 52) + 53" by simp
  have split: "(2::rat) powi (a + 1) = 2 powi (a - 52) * 2 powi 53"
    unfolding eq by (rule power_int_add) simp
  have "x < 2 powi (bexp x + 1)" by (rule bexp_bounds(2)[OF assms])
  also have "\<dots> \<le> 2 powi (a + 1)" by (simp add: two_powi_le_iff a_def)
  finally have "x \<le> ulp x * of_int M" by (simp only: split u M)
  then have "x / ulp x \<le> of_int M"
    using ulp_pos[of x] by (simp add: divide_le_eq mult.commute)
  then have "round_even (x / ulp x) \<le> M" by (rule round_even_le_of_int)
  then have "(of_int (round_even (x / ulp x)) :: rat) \<le> of_int M"
    by (simp only: of_int_le_iff)
  then have "ulp x * of_int (round_even (x / ulp x)) \<le> ulp x * of_int M"
    using less_imp_le[OF ulp_pos[of x]] by (rule mult_left_mono)
  then have "round_pos x \<le> ulp x * of_int M" by (simp only: round_pos_def)
  also have "ulp x * of_int M = 2 powi (a + 1)" by (simp only: u split M)
  finally show ?thesis by (simp only: a_def)
qed

lemma round_pos_lower:
  assumes "0 < x" "- 1022 \<le> bexp x"
  shows "2 powi bexp x \<le> round_pos x"
proof -
  define a where "a = bexp x"
  define M :: int where "M = 2 ^ 52"
  have M: "(2::rat) powi 52 = of_int M" by (simp add: M_def)
  from assms(2) have u: "ulp x = 2 powi (a - 52)" by (simp add: ulp_def a_def max_def)
  have eq: "a = (a - 52) + 52" by simp
  have split: "(2::rat) powi a = 2 powi (a - 52) * 2 powi 52"
    by (subst eq, rule power_int_add) simp
  have "2 powi a \<le> x" unfolding a_def by (rule bexp_bounds(1)[OF assms(1)])
  then have "ulp x * of_int M \<le> x" by (simp only: split u M)
  then have "of_int M \<le> x / ulp x"
    using ulp_pos[of x] by (simp add: le_divide_eq mult.commute)
  then have "M \<le> round_even (x / ulp x)" by (rule round_even_ge_of_int)
  then have "(of_int M :: rat) \<le> of_int (round_even (x / ulp x))"
    by (simp only: of_int_le_iff)
  then have "ulp x * of_int M \<le> ulp x * of_int (round_even (x / ulp x))"
    using less_imp_le[OF ulp_pos[of x]] by (rule mult_left_mono)
  then have "ulp x * of_int M \<le> round_pos x" by (simp only: round_pos_def)
  moreover have "ulp x * of_int M = 2 powi a" by (simp only: u split M)
  ultimately show ?thesis by (simp only: a_def)
qed

lemma round_pos_mono:
  assumes "0 < x" "x \<le> y"
  shows "round_pos x \<le> round_pos y"
proof -
  from assms have y: "0 < y" by simp
  define a where "a = max (bexp x) (- 1022)"
  define b where "b = max (bexp y) (- 1022)"
  from bexp_mono[OF assms] have ab: "a \<le> b" by (simp add: a_def b_def)
  show ?thesis
  proof (cases "a = b")
    case True
    then have u: "ulp x = ulp y" by (simp add: ulp_def a_def b_def)
    from assms(2) have "x / ulp y \<le> y / ulp y"
      by (intro divide_right_mono less_imp_le[OF ulp_pos])
    from round_even_mono[OF this]
    have "(of_int (round_even (x / ulp y)) :: rat) \<le> of_int (round_even (y / ulp y))"
      by (simp only: of_int_le_iff)
    then show ?thesis unfolding round_pos_def u
      using less_imp_le[OF ulp_pos[of y]] by (rule mult_left_mono)
  next
    case False
    with ab have lt: "a < b" by simp
    then have bb: "b = bexp y" "- 1022 \<le> bexp y" by (auto simp: a_def b_def max_def split: if_splits)
    have "round_pos x \<le> 2 powi (a + 1)" unfolding a_def by (rule round_pos_upper[OF assms(1)])
    also from lt have "(2::rat) powi (a + 1) \<le> 2 powi b" by (simp add: two_powi_le_iff)
    also have "2 powi b \<le> round_pos y" unfolding bb(1) by (rule round_pos_lower[OF y bb(2)])
    finally show ?thesis .
  qed
qed

lemma to_double_nonneg:
  assumes "0 \<le> x"
  shows "to_double x = PosInf \<or> (\<exists>p. to_double x = Finite p \<and> 0 \<le> p)"
  using assms round_pos_nonneg[of "\<bar>x\<bar>"] by (auto simp: to_double_def Let_def)

lemma to_double_mono_nonneg:
  assumes "0 \<le> x" "x \<le> y" "to_double y = Finite q"
  shows "\<exists>p. to_double x = Finite p \<and> 0 \<le> p \<and> p \<le> q"
proof (cases "x = 0")
  case True
  with assms to_double_nonneg[of y] show ?thesis by (auto simp: to_double_def)
next
  case False
  with assms have x: "0 < x" and y: "0 < y" by simp_all
  from assms(3) y have q: "q = round_pos y" "round_pos y < 2 powi 1024"
    by (auto simp: to_double_def Let_def split: if_splits)
  from round_pos_mono[OF x assms(2)] q have "round_pos x < 2 powi 1024" "round_pos x \<le> q"
    by simp_all
  with x round_pos_nonneg[of x] show ?thesis by (auto simp: to_double_def Let_def)
qed

lemma to_double_eqI:
  assumes "2 powi e \<le> x" "x < 2 powi (e + 1)" "- 1022 \<le> e" "e < 1023"
    and "round_even (x / 2 powi (e - 52)) = m"
  shows "to_double x = Finite (2 powi (e - 52) * of_int m)"
proof -
  have "(0::rat) < 2 powi e" by simp
  from this assms(1) have x: "0 < x" by (rule less_le_trans)
  have be: "bexp x = e" by (rule bexp_unique[OF assms(1,2)])
  with assms(3) have u: "ulp x = 2 powi (e - 52)" by (simp add: ulp_def max_def)
  have rp: "round_pos x = 2 powi (e - 52) * of_int m"
    by (simp add: round_pos_def u assms(5))
  from round_pos_upper[OF x] be assms(3) have "round_pos x \<le> 2 powi (e + 1)"
    by (simp add: max_def)
  also from assms(4) have "(2::rat) powi (e + 1) < 2 powi 1024"
    by (simp only: two_powi_less_iff)
  finally have "round_pos x < 2 powi 1024" .
  with x rp show ?thesis by (simp add: to_double_def Let_def)
qed

lemma to_double_of_nat:
  assumes "n < 2 ^ 53"
  shows "to_double (of_nat n) = Finite (of_nat n)"
proof (cases "n = 0")
  case True
  then show ?thesis by (simp add: to_double_def)
next
  case False
  define x :: rat where "x = of_nat n"
  from False have x: "0 < x" by (simp add: x_def)
  define e where "e = bexp x"
  note B = bexp_bounds[OF x, folded e_def]
  have "(1::rat) \<le> x" using False by (simp add: x_def)
  with B(2) have "(2::rat) powi 0 < 2 powi (e + 1)" by simp
  then have e0: "0 \<le> e" by (simp only: two_powi_less_iff)
  have "x < 2 powi 53" using assms unfolding x_def
    by (metis of_nat_less_iff of_nat_numeral of_nat_power power_int_numeral)
  with B(1) have "(2::rat) powi e < 2 powi 53" by simp
  then have e52: "e \<le> 52" by (simp only: two_powi_less_iff)
  have "x / 2 powi (e - 52) = x * 2 powi (52 - e)"
    by (simp add: power_int_diff field_simps)
  also have "\<dots> = of_int (int n * 2 ^ nat (52 - e))"
    using e52 by (simp add: x_def power_int_nonneg_exp)
  finally have "x / 2 powi (e - 52) = of_int (int n * 2 ^ nat (52 - e))" .
  then have "round_even (x / 2 powi (e - 52)) = int n * 2 ^ nat (52 - e)"
    by (simp only: round_even_of_int)
  from to_double_eqI[OF B(1) B(2) _ _ this] e0 e52
  have "to_double x = Finite (2 powi (e - 52) * of_int (int n * 2 ^ nat (52 - e)))" by simp
  also have "2 powi (e - 52) * of_int (int n * 2 ^ nat (52 - e)) = x * (2 powi (e - 52) * 2 powi (52 - e))"
    using e52 by (simp add: x_def power_int_nonneg_exp)
  also have "(2::rat) powi (e - 52) * 2 powi (52 - e) = 1"
    by (simp add: power_int_add[symmetric])
  finally show ?thesis by (simp add: x_def)
qed

subsection \<open>Doubles of the examples\<close>

lemma to_double_0: "to_double 0 = Finite 0"
  by (simp add: to_double_def)

lemma to_double_1: "to_double 1 = Finite 1"
  using to_double_of_nat[of 1] by simp

lemma to_double_numeral:
  assumes "(numeral k :: rat) < 2 ^ 53"
  shows "to_double (numeral k) = Finite (numeral k)"
proof -
  from assms have "(of_nat (numeral k) :: rat) < of_nat (2 ^ 53)" by simp
  then have "numeral k < (2::nat) ^ 53" by (simp only: of_nat_less_iff)
  from to_double_of_nat[OF this] show ?thesis by simp
qed

lemmas to_double_simps = to_double_0 to_double_1 to_double_numeral

lemma to_double_nonpos:
  assumes "x \<le> 0"
  shows "to_double x = NegInf \<or> (\<exists>p. to_double x = Finite p \<and> p \<le> 0)"
  using assms round_pos_nonneg[of "\<bar>x\<bar>"] by (auto simp: to_double_def Let_def)

lemma py_float_Inr:
  "py_float q = Inr d \<Longrightarrow> \<exists>r. d = Finite r \<and> to_double q = Finite r"
  by (cases "to_double q") (auto simp: py_float_def)

lemma three_tenths_rounds: "to_double (3 / 10) = Finite three_tenths"
proof -
  have "round_even (3 / 10 / 2 powi (- 2 - 52)) = 5404319552844595"
    by code_simp
  from to_double_eqI[where e = "- 2", OF _ _ _ _ this] show ?thesis
    by (simp add: power_int_minus three_tenths_def)
qed

lemma three_tenths_product: "to_double (three_tenths * 30) = Finite 9"
proof -
  have "round_even (5404319552844595 / 18014398509481984 * 30 / 2 powi (3 - 52))
          = 5066549580791808"
    by code_simp
  from to_double_eqI[where e = 3, OF _ _ _ _ this] show ?thesis
    by (simp add: power_int_minus three_tenths_def)
qed

lemma ntsc_rate_rounds:
  "to_double (30000 / 1001) = Finite (1054476685978981 / 35184372088832)"
proof -
  have "round_even (30000 / 1001 / 2 powi (4 - 52)) = 8435813487831848"
    by code_simp
  from to_double_eqI[where e = 4, OF _ _ _ _ this] show ?thesis
    by (simp add: power_int_minus)
qed

subsection \<open>Times within the duration\<close>

lemma get_key_negative: "float_lt time (Finite 0) \<Longrightarrow> get_key self time = Inr (- 1)"
  by (simp add: get_key_def)

lemma get_key_beyond:
  "duration self = Inr d \<Longrightarrow> float_lt d time \<Longrightarrow> get_key self time = Inr (- 1)"
  by (simp add: get_key_def)

lemma get_key_in_range:
  assumes d: "duration self = Inr d"
      and f: "py_float (fps (video_node self)) = Inr f"
      and t0: "0 \<le> t" and td: "\<not> float_lt d (Finite t)"
  shows "\<exists>f'. f = Finite f' \<and> (0 \<le> f' \<or> t = 0)
              \<and> get_key self (Finite t) = py_int (to_double (t * f'))"
proof -
  let ?c = "video_node self"
  from d have nz: "fps ?c \<noteq> 0"
    and dq: "py_float (of_nat (num_frames ?c) / fps ?c) = Inr d"
    by (auto simp: duration_def split: if_splits)
  from py_float_Inr[OF dq] obtain d' where d': "d = Finite d'"
    "to_double (of_nat (num_frames ?c) / fps ?c) = Finite d'" by blast
  from py_float_Inr[OF f] obtain f' where f': "f = Finite f'" "to_double (fps ?c) = Finite f'"
    by blast
  from td d' have tle: "t \<le> d'" by simp
  have sign: "0 \<le> f' \<or> t = 0"
  proof (cases "0 < fps ?c")
    case True
    with to_double_nonneg[of "fps ?c"] f' show ?thesis by auto
  next
    case False
    with nz have "fps ?c < 0" by simp
    then have "of_nat (num_frames ?c) / fps ?c \<le> 0" by (simp add: divide_le_0_iff)
    from to_double_nonpos[OF this] d' have "d' \<le> 0" by auto
    with tle t0 show ?thesis by simp
  qed
  have "get_key self (Finite t) = py_int (to_double (t * f'))"
    using t0 d td f f' by (simp add: get_key_def)
  with f' sign show ?thesis by blast
qed

lemma py_int_to_double_nonneg:
  assumes "0 \<le> x"
  shows "(to_double x = PosInf \<and> py_int (to_double x) = Inl OverflowError)
       \<or> (\<exists>p. to_double x = Finite p \<and> 0 \<le> p \<and> py_int (to_double x) = Inr \<lfloor>p\<rfloor>)"
  using to_double_nonneg[OF assms] by (auto simp: py_int_def)

subsection \<open>Frames of a constructed source\<close>

lemma three_planes:
  assumes "length f = 3" "list_all (\<lambda>p. shape p = s) f"
  shows "\<exists>r g b. f = [r, g, b] \<and> shape r = s \<and> shape g = s \<and> shape b = s"
proof -
  from assms(1) obtain r g b where "f = [r, g, b]"
    by (cases f; cases "tl f"; cases "tl (tl f)") auto
  with assms(2) show ?thesis by simp
qed

lemma Bicubic_keeps_timing:
  "Bicubic core v fmt kw = Inr vn \<Longrightarrow> num_frames vn = num_frames v \<and> fps vn = fps v"
  by (auto simp: Bicubic_def Let_def split: if_splits)

lemma Bicubic_RGB24_frame:
  assumes conv: "Bicubic core v RGB24 kw = Inr vn"
    and kw: "kw_width kw = None" "kw_height kw = None"
    and wf: "wf_clip v" and n: "n < num_frames v"
  shows "num_frames vn = num_frames v \<and> fps vn = fps v
       \<and> (\<exists>r g b. get_frame vn n = [r, g, b]
             \<and> shape r = (height v, width v) \<and> shape g = (height v, width v)
             \<and> shape b = (height v, width v))"
proof (cases "format v = RGB24 \<and> kw = no_kwargs")
  case True
  with conv have vn: "vn = v" by (simp add: Bicubic_def)
  from True wf n have "length (get_frame v n) = 3"
    "list_all (\<lambda>p. shape p = (height v, width v)) (get_frame v n)"
    by (simp_all add: wf_clip_def RGB24_def)
  from three_planes[OF this] vn show ?thesis by simp
next
  case False
  have upt3: "[0..<fmt_planes RGB24] = [0, 1, 2]" by (simp add: RGB24_def upt_rec)
  from conv kw have "vn = v\<lparr>width := width v, height := height v, format := RGB24,
        get_frame := (\<lambda>n. map (\<lambda>p. \<lparr>rows = height v, cols = width v,
                                       px = resample core v RGB24 kw n p\<rparr>)
                              [0..<fmt_planes RGB24])\<rparr>"
    unfolding Bicubic_def if_not_P[OF False] by (simp add: Let_def split: if_splits)
  then show ?thesis by (simp add: upt3 shape_def)
qed

lemma init_without_alpha:
  assumes "arg = Pair v (AlphaFlag False)
           \<or> (arg = Single v \<or> arg = Pair v (AlphaFlag True))
              \<and> PropToClip core v ''_Alpha'' = Inl e"
  shows "MovisVSVideoSource_init core arg audio kw =
           (case Bicubic core v RGB24 kw of
              Inl x \<Rightarrow> Inl x
            | Inr vn \<Rightarrow>
                if truthy_audio audio then Inl NotImplementedError
                else Inr \<lparr>video_node = vn, video_alpha_node = BlankClip v GRAY8 255,
                          priv_audio = audio, priv_audio_layer = None\<rparr>)"
  using assms
  by (auto simp: MovisVSVideoSource_init_def Bicubic_def BlankClip_def GRAY8_def
        MovisVSAudioSource_init_def Let_def split: sum.splits)

lemma init_audio:
  "MovisVSVideoSource_init core arg audio kw =
     (case MovisVSVideoSource_init core arg None kw of
        Inl x \<Rightarrow> Inl x
      | Inr s \<Rightarrow> if truthy_audio audio then Inl NotImplementedError
                 else Inr (s\<lparr>priv_audio := audio\<rparr>))"
  by (auto simp: MovisVSVideoSource_init_def truthy_audio_def MovisVSAudioSource_init_def
        Let_def split: prod.splits sum.splits)

lemma call_without_resizing:
  assumes init: "MovisVSVideoSource_init core arg None kw = Inr self"
    and arg: "arg = Pair v (AlphaFlag False)
              \<or> (arg = Single v \<or> arg = Pair v (AlphaFlag True))
                 \<and> PropToClip core v ''_Alpha'' = Inl e"
    and kw: "kw_width kw = None" "kw_height kw = None"
    and wf: "wf_clip v"
    and key: "get_key self time = Inr i" "0 \<le> i" "i < int (n_frame self)"
  shows "\<exists>r g b. MovisVSVideoSource_call self time
            = Inr (Some [r, g, b, \<lparr>rows = height v, cols = width v, px = (\<lambda>y x. 255)\<rparr>])
          \<and> shape r = (height v, width v) \<and> shape g = (height v, width v)
          \<and> shape b = (height v, width v)"
proof -
  from init init_without_alpha[OF arg, of None kw]
  obtain vn where conv: "Bicubic core v RGB24 kw = Inr vn"
    and self: "self = \<lparr>video_node = vn, video_alpha_node = BlankClip v GRAY8 255,
                      priv_audio = None, priv_audio_layer = None\<rparr>"
    by (auto simp: truthy_audio_def split: sum.splits)
  from Bicubic_keeps_timing[OF conv] have nf: "num_frames vn = num_frames v" by simp
  from key self nf have i: "nat i < num_frames v" by (simp add: n_frame_def)
  from Bicubic_RGB24_frame[OF conv kw wf i]
  obtain r g b where f: "get_frame vn (nat i) = [r, g, b]"
    and sh: "shape r = (height v, width v)" "shape g = (height v, width v)"
            "shape b = (height v, width v)"
    by blast
  have color: "frame_of (video_node self) (nat i) = Inr [r, g, b]"
    using self nf i f by (simp add: frame_of_def)
  have alpha: "frame_of (video_alpha_node self) (nat i)
                 = Inr [\<lparr>rows = height v, cols = width v, px = (\<lambda>y x. 255)\<rparr>]"
    using self i by (simp add: frame_of_def BlankClip_def GRAY8_def)
  have "MovisVSVideoSource_call self time
          = Inr (Some [asarray_uint8 r, asarray_uint8 g, asarray_uint8 b,
                       \<lparr>rows = height v, cols = width v, px = (\<lambda>y x. 255)\<rparr>])"
    using key color alpha sh
    by (simp add: MovisVSVideoSource_call_def plane_of_def dstack_def asarray_uint8_def shape_def)
  moreover have "shape (asarray_uint8 r) = (height v, width v)"
    "shape (asarray_uint8 g) = (height v, width v)" "shape (asarray_uint8 b) = (height v, width v)"
    using sh by (simp_all add: asarray_uint8_def shape_def)
  ultimately show ?thesis by blast
qed

lemma example_source_init:
  "MovisVSVideoSource_init example_core (Single example_clip) None no_kwargs = Inr example_source"
  by (simp add: MovisVSVideoSource_init_def example_source_def example_core_def example_clip_def
      Bicubic_def BlankClip_def truthy_audio_def GRAY8_def RGB24_def)

lemma example_duration: "duration example_source = Inr (Finite 3)"
  by (simp add: duration_def py_float_def example_source_def example_clip_def to_double_simps)

lemma example_rate: "py_float (fps (video_node example_source)) = Inr (Finite 30)"
  by (simp add: py_float_def example_source_def example_clip_def to_double_simps)

subsection \<open>Deleting the oldest keys of a dictionary\<close>

lemma filter_absent_key: "k \<notin> set (map fst d) \<Longrightarrow> filter (\<lambda>kv. fst kv \<noteq> k) d = d"
  by (induction d) auto

lemma del_keys_prefix:
  "distinct (map fst d) \<Longrightarrow> del_keys (take n (map fst d)) d = (Inr (), drop n d)"
proof (induction d arbitrary: n)
  case Nil
  then show ?case by simp
next
  case (Cons kv d)
  show ?case
  proof (cases n)
    case 0
    then show ?thesis by simp
  next
    case (Suc m)
    from Cons.prems have notin: "fst kv \<notin> set (map fst d)" and dist: "distinct (map fst d)"
      by simp_all
    have "py_del (fst kv) (kv # d) = Inr d"
      using filter_absent_key[OF notin] by (simp add: py_del_def)
    with Suc Cons.IH[OF dist, of m] show ?thesis by simp
  qed
qed

lemma trim_exact: "distinct (map fst d) \<Longrightarrow> trim core d = (Inr (), trimmed core d)"
  by (simp add: trim_def trimmed_def del_keys_prefix mult.commute)

lemma at_most_one_new_length: "at_most_one_new ks ks' \<Longrightarrow> length ks' \<le> Suc (length ks)"
  by (auto simp: at_most_one_new_def)

lemma at_most_one_new_distinct:
  assumes "at_most_one_new ks ks'" "distinct ks"
  shows "distinct ks'"
proof (cases "ks' = ks")
  case True
  with assms show ?thesis by simp
next
  case False
  with assms(1) have ne: "ks' \<noteq> []" and b: "butlast ks' = ks" and l: "last ks' \<notin> set ks"
    by (auto simp: at_most_one_new_def)
  from ne have "ks' = butlast ks' @ [last ks']" by simp
  with b have "ks' = ks @ [last ks']" by simp
  then have "distinct ks' = distinct (ks @ [last ks'])" by simp
  with assms(2) l show ?thesis by simp
qed

lemma trimmed_ok:
  assumes "0 < num_threads core" "distinct (map fst d)"
    "length d \<le> Suc (2 * num_threads core)"
  shows "cache_ok core (trimmed core d)"
proof -
  have "distinct (map fst (drop (num_threads core) d))"
    using assms(2) by (simp add: drop_map[symmetric])
  with assms show ?thesis by (auto simp: cache_ok_def trimmed_def)
qed

subsection \<open>One bridge call\<close>

lemma to_node_scene:
  assumes t: "call_time self n = Inr t"
      and sc: "scene_call t sc = (frame, sc1)"
      and dist: "distinct (map fst (priv_cache sc1))"
  shows "snd (snd (to_node core scene_call self n plane (dst, sc)))
           = (if fst (to_node core scene_call self n plane (dst, sc)) = Inr ()
              then sc1\<lparr>priv_cache := trimmed core (priv_cache sc1)\<rparr> else sc1)"
  using t sc trim_exact[OF dist, of core]
  by (auto simp: to_node_def Let_def split: option.splits sum.splits)

lemma to_node_no_time:
  "call_time self n = Inl e \<Longrightarrow>
   to_node core scene_call self n plane (dst, sc) = (Inl e, dst, sc)"
  by (simp add: to_node_def)

lemma to_node_step:
  assumes p: "0 < num_threads core"
      and ok: "cache_ok core (priv_cache sc)"
      and step: "scene_step_ok core scene_call self n plane (dst, sc)"
  shows "cache_ok core (priv_cache (snd (snd (to_node core scene_call self n plane (dst, sc)))))"
proof (cases "call_time self n")
  case (Inl e)
  with ok show ?thesis by (simp add: to_node_no_time)
next
  case (Inr t)
  obtain frame sc1 where sc: "scene_call t sc = (frame, sc1)" by (cases "scene_call t sc")
  let ?r = "to_node core scene_call self n plane (dst, sc)"
  from step Inr sc
  have one: "at_most_one_new (map fst (priv_cache sc)) (map fst (priv_cache sc1))"
    and fail: "isl (fst ?r) \<longrightarrow> map fst (priv_cache sc1) = map fst (priv_cache sc)"
    by (simp_all add: scene_step_ok_def Let_def)
  from ok have dist: "distinct (map fst (priv_cache sc))"
    and len: "length (priv_cache sc) \<le> 2 * num_threads core"
    by (simp_all add: cache_ok_def)
  from one dist have dist1: "distinct (map fst (priv_cache sc1))"
    by (rule at_most_one_new_distinct)
  from at_most_one_new_length[OF one] len
  have len1: "length (priv_cache sc1) \<le> Suc (2 * num_threads core)" by simp
  have eq: "snd (snd ?r) = (if fst ?r = Inr ()
              then sc1\<lparr>priv_cache := trimmed core (priv_cache sc1)\<rparr> else sc1)"
    using Inr sc dist1 by (rule to_node_scene)
  show ?thesis
  proof (cases "fst ?r = Inr ()")
    case True
    with eq trimmed_ok[OF p dist1 len1] show ?thesis by simp
  next
    case False
    then have "isl (fst ?r)" by (cases "fst ?r") auto
    with fail have "map fst (priv_cache sc1) = map fst (priv_cache sc)" by simp
    then have "distinct (map fst (priv_cache sc1))"
      "length (priv_cache sc1) = length (priv_cache sc)"
      using dist by (simp, metis length_map)
    with False eq len show ?thesis by (simp add: cache_ok_def)
  qed
qed

lemma run_to_node_bounded:
  assumes "0 < num_threads core"
  shows "cache_ok core (priv_cache (snd st)) \<Longrightarrow> scene_behaves core scene_call self calls st \<Longrightarrow>
         r \<in> set (run_to_node core scene_call self calls st) \<Longrightarrow>
         cache_ok core (priv_cache (snd (snd r)))"
proof (induction calls arbitrary: st)
  case Nil
  then show ?case by simp
next
  case (Cons c calls)
  obtain n plane where c: "c = (n, plane)" by (cases c)
  obtain dst sc where st: "st = (dst, sc)" by (cases st)
  let ?r = "to_node core scene_call self n plane (dst, sc)"
  from Cons.prems(2) c st
  have step: "scene_step_ok core scene_call self n plane (dst, sc)"
    and rest: "scene_behaves core scene_call self calls (snd ?r)"
    by simp_all
  from Cons.prems(1) st have ok: "cache_ok core (priv_cache sc)" by simp
  have ok': "cache_ok core (priv_cache (snd (snd ?r)))"
    by (rule to_node_step[OF assms ok step])
  from Cons.prems(3) c st have "r = ?r \<or> r \<in> set (run_to_node core scene_call self calls (snd ?r))"
    by (simp add: Let_def)
  then show ?case
  proof
    assume "r = ?r"
    with ok' show ?thesis by simp
  next
    assume "r \<in> set (run_to_node core scene_call self calls (snd ?r))"
    with Cons.IH[OF ok' rest] show ?thesis by simp
  qed
qed

subsection \<open>The example scene\<close>

lemmas example_scene_simps =
  to_node_def call_time_def py_float_def example_scene_call_def example_wrap_def
  example_scene_def single_core_def example_frame_def example_dst_def plane_of_def
  copyto_def trim_def py_del_def Let_def to_double_simps

lemma example_init:
  "MovisSceneVSWrap_init example_scene None
     = (Inr example_wrap, example_scene\<lparr>priv_cache := []\<rparr>)"
  by (simp add: MovisSceneVSWrap_init_def example_scene_def example_wrap_def init_fps_def
        unwrap_item_def attr_layer_def attr_fps_def Fraction_of_def base_clip_def
        py_float_def py_int_def BlankClip_new_def RGB24_def to_double_simps)

lemma example_run:
  "map (\<lambda>r. (fst r, map fst (priv_cache (snd (snd r)))))
     (run_to_node single_core example_scene_call example_wrap example_calls
        (example_dst, example_scene\<lparr>priv_cache := []\<rparr>))
   = [(Inr (), [0]), (Inr (), [0, 24]), (Inr (), [24, 48]), (Inr (), [24, 48]),
      (Inl KeyError, [24, 48]), (Inr (), [48, 72])]"
  by (simp add: example_scene_simps example_calls_def numeral_2_eq_2 numeral_3_eq_3)

lemma example_behaves:
  "scene_behaves single_core example_scene_call example_wrap example_calls
     (example_dst, example_scene\<lparr>priv_cache := []\<rparr>)"
  by (simp add: example_scene_simps example_calls_def scene_step_ok_def at_most_one_new_def
      numeral_2_eq_2 numeral_3_eq_3)

lemma failing_run:
  "map (\<lambda>r. (fst r, map fst (priv_cache (snd (snd r)))))
     (run_to_node single_core example_scene_call example_wrap failing_calls
        (example_dst, example_scene\<lparr>priv_cache := []\<rparr>))
   = [(Inl IndexError, [0]), (Inl IndexError, [0, 24]), (Inl IndexError, [0, 24, 48]),
      (Inr (), [24, 48, 72])]"
  by (simp add: example_scene_simps failing_calls_def numeral_2_eq_2 numeral_3_eq_3)

subsection \<open>The scan of the layer list\<close>

lemma scan_layers_find:
  "scan_layers layers =
     (case first_video_source_layer layers of
        Some (VideoSource s) \<Rightarrow> Some (fps (video_node s))
      | _ \<Rightarrow> None)"
  by (induction layers)
     (auto simp: first_video_source_layer_def is_video_source_def
           split: layer_obj.splits option.splits)

lemma init_rate:
  "map_sum id self_fps (fst (MovisSceneVSWrap_init scene fps_arg)) = Inr x \<Longrightarrow>
   init_fps (priv_layers scene) fps_arg = Inr x"
  by (auto simp: MovisSceneVSWrap_init_def Let_def split: sum.splits)

lemma ntsc_rate_is_double:
  "to_double (1054476685978981 / 35184372088832) = Finite (1054476685978981 / 35184372088832)"
proof -
  have "round_even (1054476685978981 / 35184372088832 / 2 powi (4 - 52)) = 8435813487831848"
    by code_simp
  from to_double_eqI[where e = 4, OF _ _ _ _ this] show ?thesis
    by (simp add: power_int_minus)
qed

lemma ntsc_timeline:
  "to_double (5272383429894905 / 17592186044416) = Finite (5272383429894905 / 17592186044416)"
proof -
  have "round_even (5272383429894905 / 17592186044416 / 2 powi (8 - 52)) = 5272383429894905"
    by code_simp
  from to_double_eqI[where e = 8, OF _ _ _ _ this] show ?thesis
    by (simp add: power_int_minus)
qed

lemmas rate_defs = MovisSceneVSWrap_init_def init_fps_def unwrap_item_def attr_layer_def
    attr_fps_def source_fps_def Fraction_of_def base_clip_def py_float_def py_int_def
    BlankClip_new_def RGB24_def to_double_simps first_video_source_layer_def
    is_video_source_def example_scene_def video_scene_def wrapped_scene_def

lemma explicit_rate:
  "map_sum id self_fps (fst (MovisSceneVSWrap_init example_scene (Some 25))) = Inr 25"
  by (simp add: rate_defs)

lemma video_rate:
  "map_sum id self_fps (fst (MovisSceneVSWrap_init video_scene None)) = Inr 30"
  by (simp add: rate_defs example_source_def example_clip_def)

lemma layer_rate:
  "map_sum id self_fps (fst (MovisSceneVSWrap_init example_scene None)) = Inr 24"
  by (simp add: rate_defs)


lemma ntsc_floor: "\<lfloor>5272383429894905 / 17592186044416 :: rat\<rfloor> = 299"
  by code_simp

lemma wrapped_rate:
  "map_sum id self_fps (fst (MovisSceneVSWrap_init wrapped_scene None))
       = Inr (1054476685978981 / 35184372088832)"
proof -
  have r: "init_fps [LayerItem (LayerItem (VideoSource ntsc_source))] None
      = Inr (1054476685978981 / 35184372088832)"
    by (simp add: init_fps_def unwrap_item_def attr_layer_def attr_fps_def
        source_fps_def Fraction_of_def py_float_def ntsc_source_def example_source_def
        example_clip_def ntsc_rate_rounds)
  have b: "base_clip 4 2 (Finite 10) (1054476685978981 / 35184372088832)
      = BlankClip_new 4 2 RGB24 299 (1054476685978981 / 35184372088832)"
    by (simp add: base_clip_def py_float_def py_int_def ntsc_rate_is_double ntsc_timeline
        ntsc_floor)
  show ?thesis
    by (simp add: MovisSceneVSWrap_init_def r wrapped_scene_def example_scene_def b
        BlankClip_new_def Let_def)
qed

section \<open>The claims\<close>

subsection \<open>The bound on the scene's memoization dictionary\<close>

text \<open>
  C1, as stated: from the empty dictionary the constructor leaves, in every sequence of
  bridge calls in which each successful call of the scene inserts at most one new entry,
  the dictionary holds at most \<open>2 * num_threads\<close> entries after the trim.  This fails
  when bridge calls raise after the scene has inserted its entry, since they do not
  trim: with one worker thread, three calls for a plane the frame does not have leave
  three entries, and the call that follows trims four entries to three.
\<close>

theorem cache_exceeds_bound:
  "MovisSceneVSWrap_init example_scene None
     = (Inr example_wrap, example_scene\<lparr>priv_cache := []\<rparr>)
   \<and> map (\<lambda>r. (fst r, length (priv_cache (snd (snd r)))))
       (run_to_node single_core example_scene_call example_wrap failing_calls
          (example_dst, example_scene\<lparr>priv_cache := []\<rparr>))
     = [(Inl IndexError, 1), (Inl IndexError, 2), (Inl IndexError, 3), (Inr (), 3)]
   \<and> \<not> (3::nat) \<le> 2 * num_threads single_core"
proof -
  have "map (\<lambda>r. (fst r, length (priv_cache (snd (snd r)))))
       (run_to_node single_core example_scene_call example_wrap failing_calls
          (example_dst, example_scene\<lparr>priv_cache := []\<rparr>))
     = map (\<lambda>p. (fst p, length (snd p)))
        (map (\<lambda>r. (fst r, map fst (priv_cache (snd (snd r)))))
          (run_to_node single_core example_scene_call example_wrap failing_calls
             (example_dst, example_scene\<lparr>priv_cache := []\<rparr>)))"
    by (simp add: comp_def)
  also have "\<dots> = [(Inl IndexError, 1), (Inl IndexError, 2), (Inl IndexError, 3), (Inr (), 3)]"
    unfolding failing_run by simp
  finally show ?thesis using example_init by (simp add: single_core_def)
qed

text \<open>
  C1, amended.  The constructor leaves the scene's dictionary empty.  With at least one
  worker thread, in every sequence of bridge calls made one after the other from there,
  in which each call of the scene inserts at most one new entry and none in a bridge
  call that raises, the dictionary holds at most \<open>2 * num_threads\<close> entries after
  every call.  A bridge call that returns leaves the scene as the scene's own call left
  it, with exactly the \<open>num_threads\<close> oldest entries deleted when there were more than
  \<open>2 * num_threads\<close>, and none deleted otherwise; a bridge call that raises after the
  scene's call leaves the scene as that call left it.  The bridge call returns, with the
  plane copied, whenever the scene returns a frame that has the plane and fits the
  buffer.
\<close>

theorem cache_bounded:
  assumes "0 < num_threads core"
      and "MovisSceneVSWrap_init scene fps_arg = (Inr self, scene0)"
      and "scene_behaves core scene_call self calls (dst, scene0)"
  shows "priv_cache scene0 = []
       \<and> (\<forall>r \<in> set (run_to_node core scene_call self calls (dst, scene0)).
            length (priv_cache (snd (snd r))) \<le> 2 * num_threads core)
       \<and> (call_time self n = Inr t \<longrightarrow> scene_call t sc = (frame, sc1) \<longrightarrow>
          distinct (map fst (priv_cache sc1)) \<longrightarrow>
            snd (snd (to_node core scene_call self n plane (dst', sc)))
              = (if fst (to_node core scene_call self n plane (dst', sc)) = Inr ()
                 then sc1\<lparr>priv_cache :=
                        (if length (priv_cache sc1) > 2 * num_threads core
                         then drop (num_threads core) (priv_cache sc1)
                         else priv_cache sc1)\<rparr>
                 else sc1))
       \<and> (call_time self n = Inr t \<longrightarrow> scene_call t sc = (Some arr, sc1) \<longrightarrow>
          distinct (map fst (priv_cache sc1)) \<longrightarrow>
          plane_of arr plane = Inr src \<longrightarrow> copyto dst' src = Inr dst2 \<longrightarrow>
            fst (to_node core scene_call self n plane (dst', sc)) = Inr ()
            \<and> fst (snd (to_node core scene_call self n plane (dst', sc))) = dst2)"
proof -
  from assms(2) have empty: "priv_cache scene0 = []"
    by (auto simp: MovisSceneVSWrap_init_def Let_def split: sum.splits)
  then have "cache_ok core (priv_cache (snd (dst, scene0)))" by (simp add: cache_ok_def)
  from run_to_node_bounded[OF assms(1) this assms(3)]
  have bound: "\<forall>r \<in> set (run_to_node core scene_call self calls (dst, scene0)).
            length (priv_cache (snd (snd r))) \<le> 2 * num_threads core"
    by (simp add: cache_ok_def)
  have exact: "snd (snd (to_node core scene_call self n plane (dst', sc)))
              = (if fst (to_node core scene_call self n plane (dst', sc)) = Inr ()
                 then sc1\<lparr>priv_cache :=
                        (if length (priv_cache sc1) > 2 * num_threads core
                         then drop (num_threads core) (priv_cache sc1)
                         else priv_cache sc1)\<rparr>
                 else sc1)"
    if "call_time self n = Inr t" "scene_call t sc = (frame, sc1)"
      "distinct (map fst (priv_cache sc1))"
    using to_node_scene[where scene_call = scene_call and core = core and plane = plane
        and dst = dst', OF that(1) that(2) that(3)]
    by (simp add: trimmed_def)
  have returns: "fst (to_node core scene_call self n plane (dst', sc)) = Inr ()
            \<and> fst (snd (to_node core scene_call self n plane (dst', sc))) = dst2"
    if "call_time self n = Inr t" "scene_call t sc = (Some arr, sc1)"
      "distinct (map fst (priv_cache sc1))" "plane_of arr plane = Inr src"
      "copyto dst' src = Inr dst2"
    using that trim_exact[OF that(3), of core] by (simp add: to_node_def)
  from empty bound exact returns show ?thesis by blast
qed

theorem cache_bounded_witness:
  "0 < num_threads single_core
   \<and> MovisSceneVSWrap_init example_scene None
       = (Inr example_wrap, example_scene\<lparr>priv_cache := []\<rparr>)
   \<and> scene_behaves single_core example_scene_call example_wrap example_calls
       (example_dst, example_scene\<lparr>priv_cache := []\<rparr>)
   \<and> list_all (\<lambda>r. length (priv_cache (snd (snd r))) \<le> 2 * num_threads single_core)
         (run_to_node single_core example_scene_call example_wrap example_calls
            (example_dst, example_scene\<lparr>priv_cache := []\<rparr>))
   \<and> call_time example_wrap 48 = Inr (Finite 2)
   \<and> example_scene_call (Finite 2) filled_scene
       = (Some example_frame,
          filled_scene\<lparr>priv_cache :=
            [(0, example_frame), (24, example_frame), (48, example_frame)]\<rparr>)
   \<and> fst (to_node single_core example_scene_call example_wrap 48 2
            (example_dst, filled_scene)) = Inr ()
   \<and> snd (snd (to_node single_core example_scene_call example_wrap 48 2
                 (example_dst, filled_scene)))
       = filled_scene\<lparr>priv_cache := [(24, example_frame), (48, example_frame)]\<rparr>"
proof -
  let ?sc1 = "filled_scene\<lparr>priv_cache :=
            [(0, example_frame), (24, example_frame), (48, example_frame)]\<rparr>"
  have p: "0 < num_threads single_core" by (simp add: single_core_def)
  have t: "call_time example_wrap 48 = Inr (Finite 2)"
    by (simp add: call_time_def py_float_def example_wrap_def to_double_simps)
  have s: "example_scene_call (Finite 2) filled_scene = (Some example_frame, ?sc1)"
    by (simp add: example_scene_call_def filled_scene_def example_scene_def)
  have d: "distinct (map fst (priv_cache ?sc1))" by simp
  have ok: "fst (to_node single_core example_scene_call example_wrap 48 2
            (example_dst, filled_scene)) = Inr ()"
    by (simp add: to_node_def t s example_frame_def example_dst_def plane_of_def copyto_def
        trim_def py_del_def single_core_def numeral_2_eq_2 numeral_3_eq_3)
  note c = cache_bounded[OF p example_init example_behaves, where n = 48 and t = "Finite 2"
      and sc = filled_scene and frame = "Some example_frame" and ?sc1.0 = ?sc1
      and plane = 2 and dst' = example_dst and arr = example_frame
      and src = "\<lparr>rows = 2, cols = 4, px = (\<lambda>y x. 0)\<rparr>"
      and ?dst2.0 = "\<lparr>rows = 2, cols = 4, px = (\<lambda>y x. 0)\<rparr>"]
  from c have bound:
    "list_all (\<lambda>r. length (priv_cache (snd (snd r))) \<le> 2 * num_threads single_core)
       (run_to_node single_core example_scene_call example_wrap example_calls
          (example_dst, example_scene\<lparr>priv_cache := []\<rparr>))"
    unfolding list_all_iff by blast
  from c t s d ok
  have "snd (snd (to_node single_core example_scene_call example_wrap 48 2
                 (example_dst, filled_scene)))
       = filled_scene\<lparr>priv_cache := [(24, example_frame), (48, example_frame)]\<rparr>"
    by (simp add: single_core_def)
  with p example_init example_behaves bound t s ok show ?thesis by blast
qed

subsection \<open>The frame index of a time\<close>

text \<open>
  C2, as stated: for every time that is neither negative nor beyond the duration,
  \<open>get_key\<close> returns the floor of \<open>time * frame_rate\<close>.  A NaN time is neither, and the
  code raises \<^verbatim>\<open>ValueError\<close> for it.  The product is a product of doubles: at the
  double nearest to 0.3 and 30 frames per second it is rounded to 9, and the key is 9,
  while the floor of the exact product is 8.
\<close>

theorem get_key_raises_on_nan:
  "\<not> float_lt NaN (Finite 0) \<and> duration example_source = Inr (Finite 3)
   \<and> \<not> float_lt (Finite 3) NaN \<and> get_key example_source NaN = Inl ValueError
   \<and> \<not> float_lt (Finite three_tenths) (Finite 0)
   \<and> \<not> float_lt (Finite 3) (Finite three_tenths)
   \<and> get_key example_source (Finite three_tenths) = Inr 9
   \<and> \<lfloor>three_tenths * fps (video_node example_source)\<rfloor> = 8"
proof -
  have "get_key example_source NaN = Inl ValueError"
    by (simp add: get_key_def example_duration example_rate py_int_def)
  moreover have "get_key example_source (Finite three_tenths) = Inr 9"
    by (simp add: get_key_def example_duration example_rate py_int_def three_tenths_product)
       (simp add: three_tenths_def)
  moreover have "\<lfloor>5404319552844595 / 18014398509481984 * (30::rat)\<rfloor> = 8"
    by code_simp
  then have "\<lfloor>three_tenths * fps (video_node example_source)\<rfloor> = 8"
    by (simp only: three_tenths_def example_source_def example_clip_def source.simps clip.simps)
  ultimately show ?thesis by (simp add: example_duration three_tenths_def)
qed

text \<open>
  C2, amended.  For a source whose duration and rate are defined as floats: for every
  time with \<open>time < 0\<close> or \<open>time > duration\<close>, \<open>get_key\<close> returns \<open>-1\<close> and sampling
  returns \<^verbatim>\<open>None\<close>; a NaN time raises \<^verbatim>\<open>ValueError\<close>; for every other time the
  product of the doubles \<open>time\<close> and \<open>float(frame_rate)\<close> is not negative and \<open>get_key\<close>
  returns its floor, or raises \<^verbatim>\<open>OverflowError\<close> when the product is not finite.
\<close>

theorem get_key_spec:
  assumes d: "duration self = Inr d"
      and f: "py_float (fps (video_node self)) = Inr f"
  shows "(float_lt time (Finite 0) \<or> float_lt d time \<longrightarrow>
            get_key self time = Inr (- 1) \<and> MovisVSVideoSource_call self time = Inr None)
       \<and> (time = NaN \<longrightarrow> get_key self time = Inl ValueError)
       \<and> (\<not> (float_lt time (Finite 0) \<or> float_lt d time) \<longrightarrow> time \<noteq> NaN \<longrightarrow>
            (case float_mul time f of
               Finite p \<Rightarrow> 0 \<le> p \<and> get_key self time = Inr \<lfloor>p\<rfloor>
             | _ \<Rightarrow> get_key self time = Inl OverflowError))"
proof -
  from py_float_Inr[OF f] obtain f' where f': "f = Finite f'" by blast
  from d obtain d' where d': "d = Finite d'"
    by (auto simp: duration_def split: if_splits dest: py_float_Inr)
  have out: "get_key self time = Inr (- 1)" if "float_lt time (Finite 0) \<or> float_lt d time"
    using that d by (auto simp: get_key_def)
  have absent: "MovisVSVideoSource_call self time = Inr None"
    if "float_lt time (Finite 0) \<or> float_lt d time"
    using out[OF that] by (simp add: MovisVSVideoSource_call_def)
  have nan: "get_key self NaN = Inl ValueError"
    using d f f' d' by (simp add: get_key_def py_int_def)
  have inside: "case float_mul time f of
               Finite p \<Rightarrow> 0 \<le> p \<and> get_key self time = Inr \<lfloor>p\<rfloor>
             | _ \<Rightarrow> get_key self time = Inl OverflowError"
    if r: "\<not> (float_lt time (Finite 0) \<or> float_lt d time)" and n: "time \<noteq> NaN"
  proof -
    from r n d' obtain t where t: "time = Finite t" "0 \<le> t" "\<not> float_lt d (Finite t)"
      by (cases time) auto
    from get_key_in_range[OF d f t(2,3)] f'
    have sign: "0 \<le> f' \<or> t = 0"
      and key: "get_key self (Finite t) = py_int (to_double (t * f'))" by auto
    from sign t(2) have "0 \<le> t * f'" by auto
    from py_int_to_double_nonneg[OF this] key t(1) f' show ?thesis by auto
  qed
  from out absent nan inside show ?thesis by blast
qed

theorem get_key_spec_witness:
  "duration example_source = Inr (Finite 3)
   \<and> py_float (fps (video_node example_source)) = Inr (Finite 30)
   \<and> float_lt (Finite 3) (Finite 4) \<and> get_key example_source (Finite 4) = Inr (- 1)
   \<and> MovisVSVideoSource_call example_source (Finite 4) = Inr None
   \<and> get_key example_source NaN = Inl ValueError
   \<and> \<not> (float_lt (Finite 2) (Finite 0) \<or> float_lt (Finite 3) (Finite 2))
   \<and> get_key example_source (Finite 2) = Inr 60"
  using get_key_spec[OF example_duration example_rate, of "Finite 4"]
    get_key_spec[OF example_duration example_rate, of NaN]
    get_key_spec[OF example_duration example_rate, of "Finite 2"]
    example_duration example_rate
  by (simp add: to_double_simps)

text \<open>
  C3.  At a frame rate of 30 and 90 frames the duration is 3; \<open>get_key 3\<close> is \<open>90\<close>, not
  \<open>-1\<close>, and sampling at time 3 returns \<^verbatim>\<open>None\<close>, since \<open>90\<close> is not below the frame
  count.
\<close>

theorem boundary_asymmetry:
  assumes "fps (video_node self) = 30" "num_frames (video_node self) = 90"
  shows "duration self = Inr (Finite 3) \<and> get_key self (Finite 3) = Inr 90
       \<and> MovisVSVideoSource_call self (Finite 3) = Inr None"
  using assms
  by (simp add: duration_def get_key_def py_float_def py_int_def MovisVSVideoSource_call_def
        n_frame_def to_double_simps)

theorem boundary_asymmetry_witness:
  "fps (video_node example_source) = 30 \<and> num_frames (video_node example_source) = 90
   \<and> duration example_source = Inr (Finite 3) \<and> get_key example_source (Finite 3) = Inr 90
   \<and> MovisVSVideoSource_call example_source (Finite 3) = Inr None"
  using boundary_asymmetry[of example_source] by (simp add: example_source_def example_clip_def)

subsection \<open>Sampling a frame\<close>

text \<open>
  C4.  For every time whose key is a frame index, sampling is to return four planes of
  the same width and height, 8-bit each, the fourth uniformly 255 for a source built
  without a native alpha channel.  The lemma \<open>call_without_resizing\<close> shows this for
  every source built without a size among the keyword arguments.  The code forwards the
  keyword arguments to the conversion of the colour clip only: for the 4 by 2
  \<open>example_clip\<close> built with \<^verbatim>\<open>width=8\<close> the colour planes are 8 wide, the alpha
  plane is 4 wide, and sampling the first frame raises \<^verbatim>\<open>ValueError\<close>.
\<close>

theorem call_widened_raises:
  "MovisVSVideoSource_init example_core (Single example_clip) None widen_kwargs
     = Inr widened_source
   \<and> get_key widened_source (Finite 0) = Inr 0 \<and> 0 < n_frame widened_source
   \<and> MovisVSVideoSource_call widened_source (Finite 0) = Inl ValueError"
proof -
  have upt3: "[0..<3] = [0, 1, 2]" by (simp add: upt_rec)
  have init: "MovisVSVideoSource_init example_core (Single example_clip) None widen_kwargs
     = Inr widened_source"
    by (simp add: MovisVSVideoSource_init_def widened_source_def widened_clip_def
        example_core_def example_refuses_def example_clip_def Bicubic_def BlankClip_def
        truthy_audio_def GRAY8_def RGB24_def widen_kwargs_def no_kwargs_def Let_def)
  have key: "get_key widened_source (Finite 0) = Inr 0"
    by (simp add: get_key_def duration_def py_float_def py_int_def widened_source_def
        widened_clip_def to_double_simps)
  have n: "0 < n_frame widened_source"
    by (simp add: n_frame_def widened_source_def widened_clip_def)
  have "MovisVSVideoSource_call widened_source (Finite 0) = Inl ValueError"
    unfolding MovisVSVideoSource_call_def key
    by (simp add: n_frame_def widened_source_def widened_clip_def example_clip_def
        BlankClip_def GRAY8_def frame_of_def plane_of_def dstack_def asarray_uint8_def
        shape_def upt3)
  with init key n show ?thesis by simp
qed

subsection \<open>A missing composited frame\<close>

text \<open>
  C5.  For every frame index and plane: when the scene returns \<^verbatim>\<open>None\<close> for the time
  \<open>float(n / fps)\<close>, the bridge call raises \<^verbatim>\<open>KeyError\<close>; the destination buffer is
  the one passed in and the scene is as its own call left it, neither copied to nor
  trimmed.
\<close>

theorem to_node_absent:
  assumes "self_fps self \<noteq> 0"
      and "py_float (of_int n / self_fps self) = Inr t"
      and "scene_call t sc = (None, sc')"
  shows "to_node core scene_call self n plane (dst, sc) = (Inl KeyError, dst, sc')"
  using assms by (simp add: to_node_def call_time_def)

theorem to_node_absent_witness:
  "self_fps example_wrap \<noteq> 0
   \<and> py_float (240 / self_fps example_wrap) = Inr (Finite 10)
   \<and> example_scene_call (Finite 10) example_scene = (None, example_scene)
   \<and> to_node example_core example_scene_call example_wrap 240 0 (example_dst, example_scene)
       = (Inl KeyError, example_dst, example_scene)"
  using to_node_absent[where self = example_wrap and scene_call = example_scene_call
      and n = 240 and t = "Finite 10"
      and sc = example_scene and sc' = example_scene and core = example_core and plane = 0
      and dst = example_dst]
  by (simp add: example_scene_call_def example_wrap_def example_scene_def py_float_def
      to_double_simps)

subsection \<open>Monotonicity of the frame index\<close>

text \<open>
  C6, as stated: for all times \<open>t1 \<le> t2\<close>, \<open>get_key t1 \<le> get_key t2\<close>.  This fails
  beyond the duration, where the key drops to \<open>-1\<close>: on three seconds of video at 30
  frames per second, \<open>get_key 1 = 30\<close> and \<open>get_key 4 = -1\<close>.
\<close>

theorem get_key_not_monotone:
  "(1::rat) \<le> 4 \<and> get_key example_source (Finite 1) = Inr 30
   \<and> get_key example_source (Finite 4) = Inr (- 1) \<and> \<not> ((30::int) \<le> - 1)"
  by (simp add: get_key_def example_duration example_rate py_int_def to_double_simps)

text \<open>
  C6, amended.  For a source whose duration and rate are defined as floats and all
  numbers \<open>t1 \<le> t2\<close>: beyond the duration \<open>get_key t2\<close> is \<open>-1\<close>; up to the duration,
  whenever \<open>get_key t2\<close> returns a key, \<open>get_key t1\<close> returns a key that is not greater;
  the key of a time from 0 to the duration is the integer part of the product of the
  doubles \<open>t2\<close> and \<open>float(frame_rate)\<close>, never rounded up; and equal times have equal
  results.
\<close>

theorem get_key_monotone_in_range:
  assumes d: "duration self = Inr d"
      and f: "py_float (fps (video_node self)) = Inr f"
      and le: "t1 \<le> t2"
  shows "(float_lt d (Finite t2) \<longrightarrow> get_key self (Finite t2) = Inr (- 1))
       \<and> (\<not> float_lt d (Finite t2) \<longrightarrow> get_key self (Finite t2) = Inr j \<longrightarrow>
            (\<exists>i. get_key self (Finite t1) = Inr i \<and> i \<le> j))
       \<and> (\<not> float_lt d (Finite t2) \<longrightarrow> 0 \<le> t2 \<longrightarrow> get_key self (Finite t2) = Inr j \<longrightarrow>
            (\<exists>p. float_mul (Finite t2) f = Finite p \<and> of_int j \<le> p \<and> p < of_int j + 1))
       \<and> (t1 = t2 \<longrightarrow> get_key self (Finite t1) = get_key self (Finite t2))"
proof -
  from d obtain d' where d': "d = Finite d'"
    by (auto simp: duration_def split: if_splits dest: py_float_Inr)
  have beyond: "get_key self (Finite t2) = Inr (- 1)" if "float_lt d (Finite t2)"
    using get_key_beyond[OF d that] .
  have trunc: "\<exists>p. float_mul (Finite t2) f = Finite p \<and> of_int j \<le> p \<and> p < of_int j + 1"
    if in2: "\<not> float_lt d (Finite t2)" and nn: "0 \<le> t2" and k2: "get_key self (Finite t2) = Inr j"
  proof -
    from get_key_in_range[OF d f nn in2] obtain f' where f': "f = Finite f'"
      and sign: "0 \<le> f' \<or> t2 = 0"
      and key: "get_key self (Finite t2) = py_int (to_double (t2 * f'))" by blast
    from sign nn have "0 \<le> t2 * f'" by auto
    from py_int_to_double_nonneg[OF this] key k2
    obtain p where "to_double (t2 * f') = Finite p" "j = \<lfloor>p\<rfloor>" by auto
    moreover have "of_int \<lfloor>p\<rfloor> \<le> p" "p < of_int \<lfloor>p\<rfloor> + 1" for p :: rat
      by linarith+
    ultimately show ?thesis using f' by auto
  qed
  have mono: "\<exists>i. get_key self (Finite t1) = Inr i \<and> i \<le> j"
    if in2: "\<not> float_lt d (Finite t2)" and k2: "get_key self (Finite t2) = Inr j"
  proof (cases "t2 < 0")
    case True
    with le have "get_key self (Finite t1) = Inr (- 1)" "get_key self (Finite t2) = Inr (- 1)"
      by (simp_all add: get_key_negative)
    with k2 show ?thesis by simp
  next
    case False
    then have nn2: "0 \<le> t2" by simp
    from get_key_in_range[OF d f nn2 in2] obtain f' where f': "f = Finite f'"
      and sign2: "0 \<le> f' \<or> t2 = 0"
      and key2: "get_key self (Finite t2) = py_int (to_double (t2 * f'))" by blast
    from sign2 nn2 have p2: "0 \<le> t2 * f'" by auto
    from py_int_to_double_nonneg[OF p2] key2 k2
    obtain q where q: "to_double (t2 * f') = Finite q" "0 \<le> q" "j = \<lfloor>q\<rfloor>" by auto
    show ?thesis
    proof (cases "t1 < 0")
      case True
      then have "get_key self (Finite t1) = Inr (- 1)" by (simp add: get_key_negative)
      moreover from q(2,3) have "- 1 \<le> j" by (simp add: le_floor_iff)
      ultimately show ?thesis by simp
    next
      case False
      then have nn1: "0 \<le> t1" by simp
      from in2 d' le have in1: "\<not> float_lt d (Finite t1)" by simp
      from get_key_in_range[OF d f nn1 in1] f'
      have key1: "get_key self (Finite t1) = py_int (to_double (t1 * f'))" by auto
      from sign2 le nn1 have p1: "0 \<le> t1 * f'" and p12: "t1 * f' \<le> t2 * f'"
        by (auto simp: mult_right_mono)
      from to_double_mono_nonneg[OF p1 p12 q(1)]
      obtain p where p: "to_double (t1 * f') = Finite p" "0 \<le> p" "p \<le> q" by blast
      then have "py_int (to_double (t1 * f')) = Inr \<lfloor>p\<rfloor>" by (simp add: py_int_def)
      moreover from p(3) have "\<lfloor>p\<rfloor> \<le> \<lfloor>q\<rfloor>" by (rule floor_mono)
      ultimately show ?thesis using key1 q(3) by simp
    qed
  qed
  from beyond mono trunc show ?thesis by blast
qed

theorem get_key_monotone_in_range_witness:
  "duration example_source = Inr (Finite 3)
   \<and> py_float (fps (video_node example_source)) = Inr (Finite 30)
   \<and> (1::rat) \<le> 2 \<and> \<not> float_lt (Finite 3) (Finite 2)
   \<and> get_key example_source (Finite 2) = Inr 60
   \<and> get_key example_source (Finite 1) = Inr 30
   \<and> float_mul (Finite 2) (Finite 30) = Finite 60
   \<and> float_lt (Finite 3) (Finite 4) \<and> get_key example_source (Finite 4) = Inr (- 1)"
proof -
  have k2: "get_key example_source (Finite 2) = Inr 60"
    and k1: "get_key example_source (Finite 1) = Inr 30"
    by (simp_all add: get_key_def example_duration example_rate py_int_def to_double_simps)
  from get_key_monotone_in_range[OF example_duration example_rate, of 1 2 60]
    get_key_monotone_in_range[OF example_duration example_rate, of 4 4 0]
    k1 k2 example_duration example_rate
  show ?thesis by (simp add: to_double_simps)
qed

subsection \<open>Audio\<close>



subsection \<open>The frame rate of the bridge\<close>

text \<open>
  C8.  Whenever the constructor returns a bridge: a frame rate passed to it is the
  bridge's frame rate; without one, the rate is that of the first video-source layer of
  the scene's layer list, layer items unwrapped; when no layer is a video source, it is
  the exact value of the float rate of the first item's layer (unwrapped once more when
  it is an item itself), which for a video source in two items is its rate rounded to a
  double.  The constructor returns the bridge with that rate whenever the engine
  accepts the base clip of \<open>duration * rate\<close> frames.
\<close>

theorem init_fps_spec:
  "(map_sum id self_fps (fst (MovisSceneVSWrap_init scene fps_arg)) = Inr x \<longrightarrow>
      (fps_arg = Some f \<longrightarrow> x = f)
    \<and> (fps_arg = None \<longrightarrow>
         first_video_source_layer (priv_layers scene) = Some (VideoSource s) \<longrightarrow>
         x = fps (video_node s))
    \<and> (fps_arg = None \<longrightarrow> first_video_source_layer (priv_layers scene) = None \<longrightarrow>
         (\<exists>l rest. priv_layers scene = LayerItem l # rest
            \<and> (case unwrap_item l of
                  OtherLayer (Some r) \<Rightarrow> r = Finite x
                | VideoSource s' \<Rightarrow> to_double (fps (video_node s')) = Finite x
                | _ \<Rightarrow> False))))
   \<and> (base_clip (fst (size scene)) (snd (size scene)) (scene_duration scene) y = Inr b \<longrightarrow>
        (fps_arg = Some y
         \<or> fps_arg = None
           \<and> first_video_source_layer (priv_layers scene) = Some (VideoSource s)
           \<and> y = fps (video_node s)
         \<or> fps_arg = None \<and> first_video_source_layer (priv_layers scene) = None
           \<and> (\<exists>l rest. priv_layers scene = LayerItem l # rest
                 \<and> (unwrap_item l = OtherLayer (Some (Finite y))
                    \<or> (\<exists>s'. unwrap_item l = VideoSource s'
                           \<and> to_double (fps (video_node s')) = Finite y)))) \<longrightarrow>
        fst (MovisSceneVSWrap_init scene fps_arg)
          = Inr \<lparr>self_width = fst (size scene), self_height = snd (size scene),
                 self_fps = y, priv_base_clip = b\<rparr>)"
proof -
  have 1: "x = f"
    if "map_sum id self_fps (fst (MovisSceneVSWrap_init scene fps_arg)) = Inr x"
      "fps_arg = Some f"
    using init_rate[OF that(1)] that(2) by (simp add: init_fps_def)
  have 2: "x = fps (video_node s)"
    if "map_sum id self_fps (fst (MovisSceneVSWrap_init scene fps_arg)) = Inr x"
      "fps_arg = None" "first_video_source_layer (priv_layers scene) = Some (VideoSource s)"
    using init_rate[OF that(1)] that(2,3) by (simp add: init_fps_def scan_layers_find)
  have 3: "\<exists>l rest. priv_layers scene = LayerItem l # rest
               \<and> (case unwrap_item l of
                     OtherLayer (Some r) \<Rightarrow> r = Finite x
                   | VideoSource s' \<Rightarrow> to_double (fps (video_node s')) = Finite x
                   | _ \<Rightarrow> False)"
    if a: "map_sum id self_fps (fst (MovisSceneVSWrap_init scene fps_arg)) = Inr x"
      and that: "fps_arg = None" "first_video_source_layer (priv_layers scene) = None"
  proof -
    note r = init_rate[OF a]
    from r that obtain first rest where layers: "priv_layers scene = first # rest"
      by (cases "priv_layers scene") (auto simp: init_fps_def scan_layers_find)
    from r that layers obtain l where l: "first = LayerItem l"
      by (cases first) (auto simp: init_fps_def scan_layers_find attr_layer_def)
    from r that layers l
    have "case attr_fps (unwrap_item l) of Inl e \<Rightarrow> False | Inr v \<Rightarrow> Fraction_of v = Inr x"
      by (auto simp: init_fps_def scan_layers_find attr_layer_def split: sum.splits)
    then have "case unwrap_item l of
                     OtherLayer (Some r) \<Rightarrow> r = Finite x
                   | VideoSource s' \<Rightarrow> to_double (fps (video_node s')) = Finite x
                   | _ \<Rightarrow> False"
      by (cases "unwrap_item l")
         (auto simp: attr_fps_def source_fps_def py_float_def Fraction_of_def
               split: sum.splits option.splits double.splits)
    with layers l show ?thesis by blast
  qed
  have 4: "fst (MovisSceneVSWrap_init scene fps_arg)
          = Inr \<lparr>self_width = fst (size scene), self_height = snd (size scene),
                 self_fps = y, priv_base_clip = b\<rparr>"
    if bc: "base_clip (fst (size scene)) (snd (size scene)) (scene_duration scene) y = Inr b"
      and c: "fps_arg = Some y
         \<or> fps_arg = None
           \<and> first_video_source_layer (priv_layers scene) = Some (VideoSource s)
           \<and> y = fps (video_node s)
         \<or> fps_arg = None \<and> first_video_source_layer (priv_layers scene) = None
           \<and> (\<exists>l rest. priv_layers scene = LayerItem l # rest
                 \<and> (unwrap_item l = OtherLayer (Some (Finite y))
                    \<or> (\<exists>s'. unwrap_item l = VideoSource s'
                           \<and> to_double (fps (video_node s')) = Finite y)))"
  proof -
    from c have "init_fps (priv_layers scene) fps_arg = Inr y"
      by (auto simp: init_fps_def scan_layers_find attr_layer_def attr_fps_def
            source_fps_def py_float_def Fraction_of_def)
    with bc show ?thesis by (simp add: MovisSceneVSWrap_init_def Let_def)
  qed
  from 1 2 3 4 show ?thesis by blast
qed

theorem init_fps_spec_witness:
  "map_sum id self_fps (fst (MovisSceneVSWrap_init example_scene (Some 25))) = Inr 25
   \<and> first_video_source_layer (priv_layers video_scene) = Some (VideoSource example_source)
   \<and> map_sum id self_fps (fst (MovisSceneVSWrap_init video_scene None)) = Inr 30
   \<and> fps (video_node example_source) = 30
   \<and> first_video_source_layer (priv_layers example_scene) = None
   \<and> priv_layers example_scene = [LayerItem (OtherLayer (Some (Finite 24)))]
   \<and> map_sum id self_fps (fst (MovisSceneVSWrap_init example_scene None)) = Inr 24
   \<and> first_video_source_layer (priv_layers wrapped_scene) = None
   \<and> priv_layers wrapped_scene = [LayerItem (LayerItem (VideoSource ntsc_source))]
   \<and> fps (video_node ntsc_source) = 30000 / 1001
   \<and> map_sum id self_fps (fst (MovisSceneVSWrap_init wrapped_scene None))
       = Inr (1054476685978981 / 35184372088832)
   \<and> base_clip (fst (size example_scene)) (snd (size example_scene))
         (scene_duration example_scene) 24 = Inr (priv_base_clip example_wrap)
   \<and> fst (MovisSceneVSWrap_init example_scene None) = Inr example_wrap"
proof -
  have f1: "first_video_source_layer (priv_layers video_scene)
              = Some (VideoSource example_source)"
    and f2: "first_video_source_layer (priv_layers example_scene) = None"
    and f3: "priv_layers example_scene = [LayerItem (OtherLayer (Some (Finite 24)))]"
    and f4: "first_video_source_layer (priv_layers wrapped_scene) = None"
    and f5: "priv_layers wrapped_scene = [LayerItem (LayerItem (VideoSource ntsc_source))]"
    and f6: "fps (video_node ntsc_source) = 30000 / 1001"
    and f7: "fps (video_node example_source) = 30"
    by (simp_all add: first_video_source_layer_def is_video_source_def unwrap_item_def
        example_scene_def video_scene_def wrapped_scene_def ntsc_source_def
        example_source_def example_clip_def)
  have f8: "base_clip (fst (size example_scene)) (snd (size example_scene))
         (scene_duration example_scene) 24 = Inr (priv_base_clip example_wrap)"
    by (simp add: base_clip_def py_float_def py_int_def BlankClip_new_def RGB24_def
        to_double_simps example_scene_def example_wrap_def)
  have u: "unwrap_item (OtherLayer (Some (Finite 24))) = OtherLayer (Some (Finite 24))"
    by (simp add: unwrap_item_def)
  have "fst (MovisSceneVSWrap_init example_scene None)
          = Inr \<lparr>self_width = fst (size example_scene), self_height = snd (size example_scene),
                 self_fps = 24, priv_base_clip = priv_base_clip example_wrap\<rparr>"
    using init_fps_spec[where scene = example_scene and fps_arg = None and y = 24
        and b = "priv_base_clip example_wrap" and s = example_source and x = 24 and f = 24]
      f8 f2 f3 u by blast
  then have f9: "fst (MovisSceneVSWrap_init example_scene None) = Inr example_wrap"
    by (simp add: example_scene_def example_wrap_def)
  show ?thesis
    using init_fps_spec[where scene = example_scene and fps_arg = "Some 25" and x = 25
        and f = 25 and s = example_source and y = 25 and b = "priv_base_clip example_wrap"]
      init_fps_spec[where scene = video_scene and fps_arg = None and x = 30
        and f = 25 and s = example_source and y = 25 and b = "priv_base_clip example_wrap"]
      init_fps_spec[where scene = wrapped_scene and fps_arg = None
        and x = "1054476685978981 / 35184372088832"
        and f = 25 and s = example_source and y = 25 and b = "priv_base_clip example_wrap"]
    by (intro conjI)
       (rule explicit_rate video_rate layer_rate wrapped_rate f1 f2 f3 f4 f5 f6 f7 f8 f9)+
qed

subsection \<open>Construction of a source\<close>

text \<open>
  C9.  When the alpha clip cannot be taken from the \<^verbatim>\<open>_Alpha\<close> frame property, or
  the tuple form passes \<^verbatim>\<open>False\<close>, the constructor behaves as if it had been given
  a blank \<open>GRAY8\<close> clip of the colour clip's size with every sample 255 as the alpha
  clip: the failure of the extraction is never raised.  The construction returns a
  source with that alpha clip whenever the engine accepts the colour conversion and no
  audio is passed, and what it raises otherwise is the error of the colour conversion
  or \<^verbatim>\<open>NotImplementedError\<close> for the audio.
\<close>

theorem alpha_fallback:
  assumes "arg = Pair v (AlphaFlag False)
           \<or> (arg = Single v \<or> arg = Pair v (AlphaFlag True))
              \<and> PropToClip core v ''_Alpha'' = Inl e"
  shows "MovisVSVideoSource_init core arg audio kw
           = MovisVSVideoSource_init core (Pair v (AlphaNode (BlankClip v GRAY8 255))) audio kw
       \<and> format (BlankClip v GRAY8 255) = GRAY8
       \<and> get_frame (BlankClip v GRAY8 255) n
           = [\<lparr>rows = height v, cols = width v, px = (\<lambda>y x. 255)\<rparr>]
       \<and> (Bicubic core v RGB24 kw = Inr vn \<longrightarrow> \<not> truthy_audio audio \<longrightarrow>
            MovisVSVideoSource_init core arg audio kw
              = Inr \<lparr>video_node = vn, video_alpha_node = BlankClip v GRAY8 255,
                     priv_audio = audio, priv_audio_layer = None\<rparr>)
       \<and> (MovisVSVideoSource_init core arg audio kw = Inl x \<longrightarrow>
            Bicubic core v RGB24 kw = Inl x \<or> x = NotImplementedError \<and> truthy_audio audio)"
proof -
  note init = init_without_alpha[OF assms, of audio kw]
  have "MovisVSVideoSource_init core (Pair v (AlphaNode (BlankClip v GRAY8 255))) audio kw
          = (case Bicubic core v RGB24 kw of
              Inl x \<Rightarrow> Inl x
            | Inr vn \<Rightarrow>
                if truthy_audio audio then Inl NotImplementedError
                else Inr \<lparr>video_node = vn, video_alpha_node = BlankClip v GRAY8 255,
                          priv_audio = audio, priv_audio_layer = None\<rparr>)"
    by (auto simp: MovisVSVideoSource_init_def Bicubic_def BlankClip_def GRAY8_def
        MovisVSAudioSource_init_def Let_def split: sum.splits)
  with init have same: "MovisVSVideoSource_init core arg audio kw
           = MovisVSVideoSource_init core (Pair v (AlphaNode (BlankClip v GRAY8 255))) audio kw"
    by simp
  have ok: "MovisVSVideoSource_init core arg audio kw
              = Inr \<lparr>video_node = vn, video_alpha_node = BlankClip v GRAY8 255,
                     priv_audio = audio, priv_audio_layer = None\<rparr>"
    if "Bicubic core v RGB24 kw = Inr vn" "\<not> truthy_audio audio"
    using that init by simp
  have err: "Bicubic core v RGB24 kw = Inl x \<or> x = NotImplementedError \<and> truthy_audio audio"
    if "MovisVSVideoSource_init core arg audio kw = Inl x"
    using that init by (auto split: sum.splits if_splits)
  from same ok err show ?thesis by (simp add: BlankClip_def GRAY8_def)
qed

theorem alpha_fallback_witness:
  "PropToClip example_core example_clip ''_Alpha'' = Inl VSError
   \<and> Bicubic example_core example_clip RGB24 no_kwargs = Inr example_clip
   \<and> \<not> truthy_audio None
   \<and> MovisVSVideoSource_init example_core (Single example_clip) None no_kwargs
       = Inr example_source
   \<and> MovisVSVideoSource_init example_core (Pair example_clip (AlphaFlag False)) None no_kwargs
       = Inr example_source
   \<and> get_frame (video_alpha_node example_source) 0
       = [\<lparr>rows = 2, cols = 4, px = (\<lambda>y x. 255)\<rparr>]
   \<and> MovisVSVideoSource_init example_core (Single example_clip) None refused_kwargs
       = Inl VSError
   \<and> Bicubic example_core example_clip RGB24 refused_kwargs = Inl VSError"
proof -
  have p: "PropToClip example_core example_clip ''_Alpha'' = Inl VSError"
    by (simp add: example_core_def)
  have b: "Bicubic example_core example_clip RGB24 no_kwargs = Inr example_clip"
    by (simp add: Bicubic_def example_clip_def)
  have r: "Bicubic example_core example_clip RGB24 refused_kwargs = Inl VSError"
    by (simp add: Bicubic_def example_core_def example_refuses_def refused_kwargs_def
        no_kwargs_def)
  have i: "MovisVSVideoSource_init example_core (Single example_clip) None refused_kwargs
       = Inl VSError"
    by (simp add: MovisVSVideoSource_init_def r)
  have h1: "Single example_clip = Pair example_clip (AlphaFlag False)
           \<or> (Single example_clip = Single example_clip
               \<or> Single example_clip = Pair example_clip (AlphaFlag True))
              \<and> PropToClip example_core example_clip ''_Alpha'' = Inl VSError"
    using p by simp
  have h2: "Pair example_clip (AlphaFlag False) = Pair example_clip (AlphaFlag False)
           \<or> (Pair example_clip (AlphaFlag False) = Single example_clip
               \<or> Pair example_clip (AlphaFlag False) = Pair example_clip (AlphaFlag True))
              \<and> PropToClip example_core example_clip ''_Alpha'' = Inl VSError"
    by simp
  note A = alpha_fallback[OF h1, where audio = None and kw = no_kwargs and n = 0
      and vn = example_clip and x = VSError]
  note B = alpha_fallback[OF h2, where audio = None and kw = no_kwargs and n = 0
      and vn = example_clip and x = VSError]
  note C = alpha_fallback[OF h1, where audio = None and kw = refused_kwargs and n = 0
      and vn = example_clip and x = VSError]
  have t: "\<not> truthy_audio None" by (simp add: truthy_audio_def)
  have a1: "MovisVSVideoSource_init example_core (Single example_clip) None no_kwargs
       = Inr example_source"
    unfolding example_source_def
    by (rule A[THEN conjunct2, THEN conjunct2, THEN conjunct2, THEN conjunct1, rule_format,
          OF b t])
  have b1: "MovisVSVideoSource_init example_core
       (Pair example_clip (AlphaFlag False)) None no_kwargs = Inr example_source"
    unfolding example_source_def
    by (rule B[THEN conjunct2, THEN conjunct2, THEN conjunct2, THEN conjunct1, rule_format,
          OF b t])
  have "get_frame (BlankClip example_clip GRAY8 255) 0
       = [\<lparr>rows = height example_clip, cols = width example_clip, px = (\<lambda>y x. 255)\<rparr>]"
    by (rule A[THEN conjunct2, THEN conjunct2, THEN conjunct1])
  then have f: "get_frame (video_alpha_node example_source) 0
       = [\<lparr>rows = 2, cols = 4, px = (\<lambda>y x. 255)\<rparr>]"
    by (simp add: example_source_def example_clip_def)
  from C[THEN conjunct2, THEN conjunct2, THEN conjunct2, THEN conjunct2, rule_format, OF i]
  have "Bicubic example_core example_clip RGB24 refused_kwargs = Inl VSError"
    by simp
  with p b t a1 b1 f i show ?thesis by simp
qed

text \<open>
  C10, as stated: for every audio argument the constructor raises
  \<^verbatim>\<open>NotImplementedError\<close>.  The conversion of the colour clip runs before the audio
  line: with a keyword argument the engine refuses, the constructor raises the engine's
  error and does not reach the audio layer.
\<close>

theorem audio_masked_by_engine_error:
  "num_samples example_audio \<noteq> 0
   \<and> MovisVSVideoSource_init example_core (Single example_clip) (Some example_audio)
       refused_kwargs = Inl VSError
   \<and> VSError \<noteq> NotImplementedError"
  by (simp add: MovisVSVideoSource_init_def Bicubic_def example_core_def example_refuses_def
      refused_kwargs_def no_kwargs_def example_audio_def)

text \<open>
  C10, amended.  For every audio node (one that holds samples) the constructor raises:
  \<^verbatim>\<open>NotImplementedError\<close> wherever the same construction without audio returns a
  source, and the error of that construction wherever it raises.  Every source the
  constructor returns has no audio layer, \<open>has_audio\<close> is false for it, and
  \<open>get_audio\<close> returns \<^verbatim>\<open>None\<close> for all arguments.
\<close>

theorem audio_unimplemented:
  "(num_samples a \<noteq> 0 \<longrightarrow>
      isl (MovisVSVideoSource_init core arg (Some a) kw)
      \<and> (MovisVSVideoSource_init core arg None kw = Inr s0 \<longrightarrow>
           MovisVSVideoSource_init core arg (Some a) kw = Inl NotImplementedError)
      \<and> (MovisVSVideoSource_init core arg None kw = Inl x \<longrightarrow>
           MovisVSVideoSource_init core arg (Some a) kw = Inl x))
   \<and> (MovisVSVideoSource_init core arg audio kw = Inr self \<longrightarrow>
        priv_audio_layer self = None \<and> \<not> has_audio self
        \<and> get_audio self start_time end_time = Inr None)"
proof -
  have 1: "isl (MovisVSVideoSource_init core arg (Some a) kw)
      \<and> (MovisVSVideoSource_init core arg None kw = Inr s0 \<longrightarrow>
           MovisVSVideoSource_init core arg (Some a) kw = Inl NotImplementedError)
      \<and> (MovisVSVideoSource_init core arg None kw = Inl x \<longrightarrow>
           MovisVSVideoSource_init core arg (Some a) kw = Inl x)"
    if "num_samples a \<noteq> 0"
    using that init_audio[of core arg "Some a" kw]
    by (auto simp: truthy_audio_def split: sum.splits)
  have 2: "priv_audio_layer self = None \<and> \<not> has_audio self
        \<and> get_audio self start_time end_time = Inr None"
    if "MovisVSVideoSource_init core arg audio kw = Inr self"
    using that
    by (auto simp: MovisVSVideoSource_init_def truthy_audio_def MovisVSAudioSource_init_def
        has_audio_def get_audio_def Let_def split: prod.splits sum.splits if_splits option.splits)
  from 1 2 show ?thesis by blast
qed

theorem audio_unimplemented_witness:
  "num_samples example_audio \<noteq> 0
   \<and> MovisVSVideoSource_init example_core (Single example_clip) None no_kwargs
       = Inr example_source
   \<and> MovisVSVideoSource_init example_core (Single example_clip) (Some example_audio) no_kwargs
       = Inl NotImplementedError
   \<and> MovisVSVideoSource_init example_core (Single example_clip) None refused_kwargs
       = Inl VSError
   \<and> MovisVSVideoSource_init example_core (Single example_clip) (Some example_audio)
       refused_kwargs = Inl VSError
   \<and> priv_audio_layer example_source = None \<and> \<not> has_audio example_source
   \<and> get_audio example_source (Finite 0) (Finite 1) = Inr None"
proof -
  have r: "MovisVSVideoSource_init example_core (Single example_clip) None refused_kwargs
       = Inl VSError"
    by (simp add: MovisVSVideoSource_init_def Bicubic_def example_core_def example_refuses_def
        refused_kwargs_def no_kwargs_def)
  from audio_unimplemented[of example_audio example_core "Single example_clip" no_kwargs
      example_source VSError None example_source "Finite 0" "Finite 1"]
    audio_unimplemented[of example_audio example_core "Single example_clip" refused_kwargs
      example_source VSError None example_source "Finite 0" "Finite 1"]
    example_source_init r
  show ?thesis by (simp add: example_audio_def)
qed

end
